theory Spec2Isabelle
  imports Complex_Main
begin

section \<open>Numbers and objects of the language\<close>

text \<open>
  A JavaScript number: a finite double (a real), one of the two infinities, or
  \<open>NaN\<close>. \<open>js_lt a b\<close> is \<open>a < b\<close> and \<open>js_gt a b\<close> is \<open>a > b\<close>: both
  are false as soon as one side is \<open>NaN\<close>.
\<close>

datatype number = NaN | NegInfinity | Finite real | PosInfinity

fun js_lt :: "number \<Rightarrow> number \<Rightarrow> bool" where
  "js_lt (Finite a) (Finite b) = (a < b)"
| "js_lt (Finite a) PosInfinity = True"
| "js_lt NegInfinity (Finite b) = True"
| "js_lt NegInfinity PosInfinity = True"
| "js_lt a b = False"

definition js_gt :: "number \<Rightarrow> number \<Rightarrow> bool" where
  "js_gt a b = js_lt b a"

text \<open>
  \<open>js_ge a b\<close> is \<open>a >= b\<close> and \<open>js_le a b\<close> is \<open>a <= b\<close>: false as soon
  as one side is \<open>NaN\<close>, and otherwise the negation of the strict comparison the
  other way round.
\<close>

definition js_le :: "number \<Rightarrow> number \<Rightarrow> bool" where
  "js_le a b = (a \<noteq> NaN \<and> b \<noteq> NaN \<and> \<not> js_lt b a)"

definition js_ge :: "number \<Rightarrow> number \<Rightarrow> bool" where
  "js_ge a b = js_le b a"

text \<open>
  A plain object that is used as a dictionary (a parsed JSON document, or \<open>{}\<close>) is
  the map of its own properties; its prototype is \<open>Object.prototype\<close>, whose property
  names are \<open>objectPrototypeKeys\<close>. Reading \<open>obj[k]\<close> gives the own property, else
  what is inherited under that name (a function, or the prototype itself for
  \<open>__proto__\<close>), else \<open>undefined\<close>.
\<close>

datatype 'v property = Own 'v | Inherited | Undefined

definition objectPrototypeKeys :: "string list" where
  "objectPrototypeKeys =
     [''constructor'', ''__defineGetter__'', ''__defineSetter__'', ''hasOwnProperty'',
      ''__lookupGetter__'', ''__lookupSetter__'', ''isPrototypeOf'',
      ''propertyIsEnumerable'', ''toString'', ''valueOf'', ''__proto__'',
      ''toLocaleString'']"

definition getProperty :: "(string \<rightharpoonup> 'v) \<Rightarrow> string \<Rightarrow> 'v property" where
  "getProperty obj k =
     (case obj k of
        Some v \<Rightarrow> Own v
      | None \<Rightarrow> if k \<in> set objectPrototypeKeys then Inherited else Undefined)"

text \<open>
  The assignment \<open>obj[k] = v\<close> of an object \<open>v\<close>, as far as the own properties go,
  which are what \<open>JSON.stringify\<close> writes: it stores an own property, except that
  under \<open>__proto__\<close>, when the object has no own property of that name, it replaces
  the prototype and stores nothing.
\<close>

definition setProperty :: "(string \<rightharpoonup> 'v) \<Rightarrow> string \<Rightarrow> 'v \<Rightarrow> (string \<rightharpoonup> 'v)" where
  "setProperty obj k v =
     (if k = ''__proto__'' \<and> obj k = None then obj else obj(k \<mapsto> v))"

section \<open>Quota snapshot\<close>

text \<open>
  A model's quota record. The two numeric fields are optional JavaScript numbers.
\<close>

record ModelQuotaInfo =
  label :: string
  modelId :: string
  remainingPercentage :: "number option"
  isExhausted :: bool
  resetTime :: "string option"
  timeUntilResetMs :: "number option"

text \<open>Of a snapshot, the fields that the wake-up module reads.\<close>

record QuotaSnapshot =
  snapshotTimestamp :: string
  models :: "ModelQuotaInfo list"

section \<open>Unused-model detector\<close>

definition FULL_QUOTA_THRESHOLD :: real where
  "FULL_QUOTA_THRESHOLD = 99"

definition RESET_TIME_MIN_HOURS :: real where
  "RESET_TIME_MIN_HOURS = 4.5"

definition RESET_TIME_MAX_HOURS :: real where
  "RESET_TIME_MAX_HOURS = 5.5"

definition RESET_TIME_MIN_MS :: real where
  "RESET_TIME_MIN_MS = RESET_TIME_MIN_HOURS * 60 * 60 * 1000"

definition RESET_TIME_MAX_MS :: real where
  "RESET_TIME_MAX_MS = RESET_TIME_MAX_HOURS * 60 * 60 * 1000"

definition isModelUnused :: "ModelQuotaInfo \<Rightarrow> bool" where
  "isModelUnused model =
     (case remainingPercentage model of
        None \<Rightarrow> False
      | Some pct \<Rightarrow>
          if js_lt pct (Finite FULL_QUOTA_THRESHOLD) then False
          else (case timeUntilResetMs model of
                  None \<Rightarrow> False
                | Some ms \<Rightarrow>
                    if js_lt ms (Finite RESET_TIME_MIN_MS) \<or> js_gt ms (Finite RESET_TIME_MAX_MS)
                    then False
                    else True))"

section \<open>Wake-up types\<close>

text \<open>
  The interfaces of the wake-up module. A record field that several interfaces share
  carries the interface's name as a prefix in all but one of them, since record fields
  are constants here; optional fields are options.
\<close>

datatype ScheduleMode = Interval | Daily | Weekly | Custom

datatype TriggerType = TypeManual | TypeAuto

datatype TriggerSource = SourceManual | SourceScheduled | SourceQuotaReset

record WakeupConfig =
  enabled :: bool
  selectedModels :: "string list"
  selectedAccounts :: "string list option"
  customPrompt :: "string option"
  maxOutputTokens :: int
  scheduleMode :: ScheduleMode
  intervalHours :: "int option"
  dailyTimes :: "string list option"
  weeklySchedule :: "(nat \<times> string list) list option"
  cronExpression :: "string option"
  wakeOnReset :: bool
  resetCooldownMinutes :: int

record TokenUsage =
  usage_prompt :: int
  usage_completion :: int
  usage_total :: int

record TriggerRecord =
  timestamp :: string
  success :: bool
  triggerType :: TriggerType
  triggerSource :: TriggerSource
  record_models :: "string list"
  accountEmail :: string
  durationMs :: int
  prompt :: string
  response :: "string option"
  error :: "string option"
  tokensUsed :: "TokenUsage option"

record ModelResetState =
  lastResetAt :: string
  lastTriggeredTime :: string

type_synonym ResetState = "string \<rightharpoonup> ModelResetState"

type_synonym ModelMapping = "string \<rightharpoonup> string"

record TriggerOptions =
  opt_models :: "string list"
  opt_accountEmail :: string
  opt_triggerType :: TriggerType
  opt_triggerSource :: TriggerSource
  opt_customPrompt :: "string option"
  opt_maxOutputTokens :: "int option"

record ModelTriggerResult =
  res_modelId :: string
  res_success :: bool
  res_durationMs :: int
  res_response :: "string option"
  res_error :: "string option"
  res_tokensUsed :: "TokenUsage option"

record TriggerResult =
  all_success :: bool
  results :: "ModelTriggerResult list"

record DetectionResult =
  triggered :: bool
  triggeredModels :: "string list"

section \<open>The world outside the functions\<close>

text \<open>
  Each persisted document is a file that is absent, present with a content that
  \<open>JSON.parse\<close> (or the read itself) rejects, or present with a content that parses
  to a value. A write can fail; whether it does is a property of the disk, kept per
  document. The two exceptions that the storage service can raise are the parse error
  and the write error.
\<close>

datatype 'a jsonfile = Absent | Corrupt | Doc 'a

datatype fname = CONFIG_FILE_NAME | HISTORY_FILE_NAME | RESET_STATE_FILE_NAME
  | MODEL_MAPPING_FILE_NAME

datatype exn = SyntaxError | WriteError fname

text \<open>
  Every call that leaves the process (the clock, the credential provider, the remote
  API) appends an event to a trace, and its outcome is an oracle applied to the trace
  so far, so that an outcome may depend on everything that happened before.
\<close>

datatype event =
    ClockRead
  | TokenManagerRequested string
  | AccessTokenRequested string
  | ProjectIdRequested string
  | GenerationRequested string string string "int option"

record world =
  configFile :: "WakeupConfig option jsonfile"
  historyFile :: "TriggerRecord list jsonfile"
  resetStateFile :: "ResetState jsonfile"
  modelMappingFile :: "ModelMapping jsonfile"
  writable :: "fname \<Rightarrow> bool"
  trace :: "event list"

text \<open>
  What a collaborator throws, as far as the callers tell it apart: an error object with
  a \<open>getDetailedMessage\<close> method (its message and its detailed message), any other
  \<open>Error\<close> (its message), or a value that is no \<open>Error\<close> (its \<open>String\<close>).
\<close>

datatype rejection =
    DetailedError string string
  | PlainError string
  | NonError string

text \<open>
  The outcome of the race between \<open>generateContent\<close> and the timeout: the response
  text and token usage, a rejection of the request, or the timeout.
\<close>

datatype generation =
    Responded string "TokenUsage option"
  | Rejected rejection
  | TimedOut

text \<open>
  Modelled from the spec: the account manager (\<open>accounts/manager.js\<close>) is not among
  the sources. It is the directory of known accounts: whether an account exists, the
  status of an account (\<open>valid\<close>, \<open>expired\<close> or \<open>invalid\<close>), the active account
  if any, and all account identifiers in directory order.
\<close>

datatype AccountStatus = Valid | Expired | Invalid

record AccountManager =
  hasAccount :: "string \<Rightarrow> bool"
  getAccountStatus :: "string \<Rightarrow> AccountStatus"
  getActiveEmail :: "string option"
  getAccountEmails :: "string list"

text \<open>
  The collaborators of one run: the account manager, the clock with the two
  \<open>Date\<close> conversions, the credential provider (\<open>None\<close> when the call returns,
  the rejection when it throws) and the generation request.
\<close>

record env =
  accountManager :: AccountManager
  clock :: "event list \<Rightarrow> int"
  toISOString :: "int \<Rightarrow> string"
  dateGetTime :: "string \<Rightarrow> int option"
  getTokenManagerForAccount :: "event list \<Rightarrow> string \<Rightarrow> rejection option"
  getValidAccessToken :: "event list \<Rightarrow> string \<Rightarrow> rejection option"
  generateContent :: "event list \<Rightarrow> string \<Rightarrow> string \<Rightarrow> string \<Rightarrow> int option \<Rightarrow> generation"

text \<open>\<open>Date.now()\<close> and \<open>new Date()\<close>: one read of the clock.\<close>

definition Date_now :: "env \<Rightarrow> world \<Rightarrow> int \<times> world" where
  "Date_now e w = (clock e (trace w), w\<lparr>trace := trace w @ [ClockRead]\<rparr>)"

text \<open>\<open>new Date().toISOString()\<close>.\<close>

definition Date_nowISO :: "env \<Rightarrow> world \<Rightarrow> string \<times> world" where
  "Date_nowISO e w = (let (t, w1) = Date_now e w in (toISOString e t, w1))"

section \<open>Storage service\<close>

definition MAX_HISTORY_ENTRIES :: nat where
  "MAX_HISTORY_ENTRIES = 100"

text \<open>
  The body of the \<open>try\<close> in \<open>readJsonFile\<close>: nothing when the file does not exist,
  the parsed value when it does, an exception when reading or parsing fails.
\<close>

definition readJsonFile_try :: "'a jsonfile \<Rightarrow> exn + 'a option" where
  "readJsonFile_try f =
     (case f of Absent \<Rightarrow> Inr None | Corrupt \<Rightarrow> Inl SyntaxError | Doc v \<Rightarrow> Inr (Some v))"

text \<open>
  \<open>readJsonFile\<close>: the \<open>catch\<close> only logs, and control falls through to
  \<open>return defaultValue\<close>.
\<close>

definition readJsonFile :: "'a jsonfile \<Rightarrow> 'a \<Rightarrow> exn + 'a" where
  "readJsonFile f defaultValue =
     (case readJsonFile_try f of
        Inr (Some v) \<Rightarrow> Inr v
      | Inr None \<Rightarrow> Inr defaultValue
      | Inl err \<Rightarrow> Inr defaultValue)"

text \<open>
  \<open>writeJsonFile\<close>: \<open>put\<close> stores the document in its file; a failing write is
  logged and thrown again, and leaves the file as it was.
\<close>

definition writeJsonFile :: "fname \<Rightarrow> (world \<Rightarrow> world) \<Rightarrow> world \<Rightarrow> (exn + unit) \<times> world" where
  "writeJsonFile filename put w =
     (if writable w filename then (Inr (), put w) else (Inl (WriteError filename), w))"

definition loadWakeupConfig :: "world \<Rightarrow> exn + WakeupConfig option" where
  "loadWakeupConfig w = readJsonFile (configFile w) None"

definition saveWakeupConfig :: "WakeupConfig \<Rightarrow> world \<Rightarrow> (exn + unit) \<times> world" where
  "saveWakeupConfig config =
     writeJsonFile CONFIG_FILE_NAME (\<lambda>w. w\<lparr>configFile := Doc (Some config)\<rparr>)"

definition loadTriggerHistory :: "world \<Rightarrow> exn + TriggerRecord list" where
  "loadTriggerHistory w = readJsonFile (historyFile w) []"

definition saveTriggerHistory :: "TriggerRecord list \<Rightarrow> world \<Rightarrow> (exn + unit) \<times> world" where
  "saveTriggerHistory history =
     writeJsonFile HISTORY_FILE_NAME (\<lambda>w. w\<lparr>historyFile := Doc history\<rparr>)"

text \<open>
  \<open>addTriggerRecord\<close>: \<open>unshift\<close> puts the record in front, \<open>splice\<close> cuts the
  list after \<open>MAX_HISTORY_ENTRIES\<close> entries when it is longer.
\<close>

definition addTriggerRecord :: "TriggerRecord \<Rightarrow> world \<Rightarrow> (exn + unit) \<times> world" where
  "addTriggerRecord rec w =
     (case loadTriggerHistory w of
        Inl err \<Rightarrow> (Inl err, w)
      | Inr history \<Rightarrow>
          let history1 = rec # history;
              history2 = (if length history1 > MAX_HISTORY_ENTRIES
                          then take MAX_HISTORY_ENTRIES history1 else history1)
          in saveTriggerHistory history2 w)"

definition loadResetState :: "world \<Rightarrow> exn + ResetState" where
  "loadResetState w = readJsonFile (resetStateFile w) Map.empty"

definition saveResetState :: "ResetState \<Rightarrow> world \<Rightarrow> (exn + unit) \<times> world" where
  "saveResetState state =
     writeJsonFile RESET_STATE_FILE_NAME (\<lambda>w. w\<lparr>resetStateFile := Doc state\<rparr>)"

text \<open>
  \<open>updateResetState\<close>: a new entry, stamped with the time of the call, is assigned
  to \<open>state[modelKey]\<close>, and the state is saved.
\<close>

definition updateResetState :: "env \<Rightarrow> string \<Rightarrow> string \<Rightarrow> world \<Rightarrow> (exn + unit) \<times> world" where
  "updateResetState e modelKey resetAt w =
     (case loadResetState w of
        Inl err \<Rightarrow> (Inl err, w)
      | Inr state \<Rightarrow>
          let (stamp, w1) = Date_nowISO e w;
              state1 = setProperty state modelKey
                         \<lparr>lastResetAt = resetAt, lastTriggeredTime = stamp\<rparr>
          in saveResetState state1 w1)"

text \<open>\<open>getModelResetState\<close>: \<open>state[modelKey] || null\<close>.\<close>

definition getModelResetState :: "world \<Rightarrow> string \<Rightarrow> exn + ModelResetState property" where
  "getModelResetState w modelKey =
     (case loadResetState w of
        Inl err \<Rightarrow> Inl err
      | Inr state \<Rightarrow> Inr (getProperty state modelKey))"

definition loadModelMapping :: "world \<Rightarrow> exn + ModelMapping" where
  "loadModelMapping w = readJsonFile (modelMappingFile w) Map.empty"

definition saveModelMapping :: "ModelMapping \<Rightarrow> world \<Rightarrow> (exn + unit) \<times> world" where
  "saveModelMapping mapping =
     writeJsonFile MODEL_MAPPING_FILE_NAME (\<lambda>w. w\<lparr>modelMappingFile := Doc mapping\<rparr>)"

definition getModelConstant :: "world \<Rightarrow> string \<Rightarrow> exn + string property" where
  "getModelConstant w mid =
     (case loadModelMapping w of
        Inl err \<Rightarrow> Inl err
      | Inr mapping \<Rightarrow> Inr (getProperty mapping mid))"

text \<open>
  \<open>getResetKey\<close>: \<open>||\<close> takes the model ID when there is no constant and also when
  the constant is the empty string; what is inherited under the model ID is truthy and
  is returned as it is.
\<close>

definition getResetKey :: "world \<Rightarrow> string \<Rightarrow> exn + string property" where
  "getResetKey w mid =
     (case getModelConstant w mid of
        Inl err \<Rightarrow> Inl err
      | Inr Undefined \<Rightarrow> Inr (Own mid)
      | Inr (Own c) \<Rightarrow> Inr (Own (if c = [] then mid else c))
      | Inr Inherited \<Rightarrow> Inr Inherited)"

section \<open>Account resolver\<close>

definition resolveAccounts :: "AccountManager \<Rightarrow> string list option \<Rightarrow> string list" where
  "resolveAccounts am selected =
     (case selected of
        Some sel \<Rightarrow>
          filter (\<lambda>email.
            if \<not> hasAccount am email then False
            else if getAccountStatus am email = Invalid then False
            else True) sel
      | None \<Rightarrow>
          (let fallback =
                 (case find (\<lambda>email. getAccountStatus am email = Valid \<or>
                                       getAccountStatus am email = Expired)
                         (getAccountEmails am) of
                    Some email \<Rightarrow> [email]
                  | None \<Rightarrow> [])
           in case getActiveEmail am of
                None \<Rightarrow> fallback
              | Some activeEmail \<Rightarrow>
                  if activeEmail = [] then fallback
                  else if getAccountStatus am activeEmail = Valid \<or>
                          getAccountStatus am activeEmail = Expired
                  then [activeEmail]
                  else fallback))"

definition hasValidAccounts :: "AccountManager \<Rightarrow> string list option \<Rightarrow> bool" where
  "hasValidAccounts am selected = (length (resolveAccounts am selected) > 0)"

section \<open>Trigger service\<close>

definition DEFAULT_PROMPT :: string where
  "DEFAULT_PROMPT = ''hi''"

definition MAX_CONCURRENT_REQUESTS :: nat where
  "MAX_CONCURRENT_REQUESTS = 4"

text \<open>\<open>customPrompt || DEFAULT_PROMPT\<close>: an empty custom prompt counts as none.\<close>

definition promptOf :: "string option \<Rightarrow> string" where
  "promptOf custom =
     (case custom of
        None \<Rightarrow> DEFAULT_PROMPT
      | Some p \<Rightarrow> if p = [] then DEFAULT_PROMPT else p)"

text \<open>
  The history record that \<open>recordResults\<close> builds for one model result, with the
  timestamp \<open>stamp\<close>.
\<close>

definition toTriggerRecord :: "TriggerOptions \<Rightarrow> ModelTriggerResult \<Rightarrow> string \<Rightarrow> TriggerRecord" where
  "toTriggerRecord options result stamp =
     \<lparr>timestamp = stamp,
      success = res_success result,
      triggerType = opt_triggerType options,
      triggerSource = opt_triggerSource options,
      record_models = [res_modelId result],
      accountEmail = opt_accountEmail options,
      durationMs = res_durationMs result,
      prompt = promptOf (opt_customPrompt options),
      response = res_response result,
      error = res_error result,
      tokensUsed = res_tokensUsed result\<rparr>"

text \<open>
  \<open>recordResults\<close>: one history record per model result, each stamped with its own
  read of the clock. A failing write ends the loop with its exception.
\<close>

fun recordResults :: "env \<Rightarrow> ModelTriggerResult list \<Rightarrow> TriggerOptions \<Rightarrow> world \<Rightarrow> (exn + unit) \<times> world" where
  "recordResults e [] options w = (Inr (), w)"
| "recordResults e (result # rest) options w =
     (let (stamp, w1) = Date_nowISO e w
      in case addTriggerRecord (toTriggerRecord options result stamp) w1 of
           (Inl err, w2) \<Rightarrow> (Inl err, w2)
         | (Inr u, w2) \<Rightarrow> recordResults e rest options w2)"

text \<open>
  \<open>triggerSingleModel\<close>: the client is the account it was made for. The duration is
  the difference of two reads of the clock; a response is cut to 500 characters; the
  error message is \<open>err.message\<close> for an \<open>Error\<close> and \<open>String(err)\<close> otherwise.
\<close>

definition triggerSingleModel :: "env \<Rightarrow> string \<Rightarrow> string \<Rightarrow> string \<Rightarrow> int option \<Rightarrow> world \<Rightarrow> ModelTriggerResult \<times> world" where
  "triggerSingleModel e client mid userPrompt maxTokens w =
     (let (startTime, w1) = Date_now e w;
          outcome = generateContent e (trace w1) client mid userPrompt maxTokens;
          w2 = w1\<lparr>trace := trace w1 @ [GenerationRequested client mid userPrompt maxTokens]\<rparr>;
          (endTime, w3) = Date_now e w2;
          duration = endTime - startTime
      in case outcome of
           Responded text usage \<Rightarrow>
             (\<lparr>res_modelId = mid, res_success = True, res_durationMs = duration,
               res_response = Some (take 500 text), res_error = None,
               res_tokensUsed = usage\<rparr>, w3)
         | Rejected r \<Rightarrow>
             (\<lparr>res_modelId = mid, res_success = False, res_durationMs = duration,
               res_response = None,
               res_error = Some (case r of DetailedError m d \<Rightarrow> m | PlainError m \<Rightarrow> m
                                 | NonError s \<Rightarrow> s),
               res_tokensUsed = None\<rparr>, w3)
         | TimedOut \<Rightarrow>
             (\<lparr>res_modelId = mid, res_success = False, res_durationMs = duration,
               res_response = None, res_error = Some ''Request timed out'',
               res_tokensUsed = None\<rparr>, w3))"

text \<open>
  One batch: the requests of a batch are issued in the order of the model list; the
  model takes their outcomes in that order too.
\<close>

fun triggerBatch :: "env \<Rightarrow> string \<Rightarrow> string list \<Rightarrow> string \<Rightarrow> int option \<Rightarrow> world \<Rightarrow> ModelTriggerResult list \<times> world" where
  "triggerBatch e client [] userPrompt maxTokens w = ([], w)"
| "triggerBatch e client (mid # rest) userPrompt maxTokens w =
     (let (r, w1) = triggerSingleModel e client mid userPrompt maxTokens w;
          (rs, w2) = triggerBatch e client rest userPrompt maxTokens w1
      in (r # rs, w2))"

text \<open>
  The loop \<open>for (let i = 0; i < models.length; i += MAX_CONCURRENT_REQUESTS)\<close>, from
  index \<open>i\<close> on: \<open>slice(i, i + MAX_CONCURRENT_REQUESTS)\<close>, then the next batch.
\<close>

function triggerBatches :: "env \<Rightarrow> string \<Rightarrow> string list \<Rightarrow> string \<Rightarrow> int option \<Rightarrow> nat \<Rightarrow> world \<Rightarrow> ModelTriggerResult list \<times> world" where
  "triggerBatches e client ms userPrompt maxTokens i w =
     (if i < length ms then
        (let batch = take MAX_CONCURRENT_REQUESTS (drop i ms);
             (batchResults, w1) = triggerBatch e client batch userPrompt maxTokens w;
             (later, w2) = triggerBatches e client ms userPrompt maxTokens
                             (i + MAX_CONCURRENT_REQUESTS) w1
         in (batchResults @ later, w2))
      else ([], w))"
  by pat_completeness auto
termination
  by (relation "measure (\<lambda>(e, client, ms, userPrompt, maxTokens, i, w). length ms - i)")
     (auto simp: MAX_CONCURRENT_REQUESTS_def)

text \<open>
  The result for every model when the credentials cannot be had: no duration, no
  response, the given error.
\<close>

definition failAll :: "string list \<Rightarrow> string \<Rightarrow> ModelTriggerResult list" where
  "failAll ms errorMessage =
     map (\<lambda>mid. \<lparr>res_modelId = mid, res_success = False, res_durationMs = 0,
                  res_response = None, res_error = Some errorMessage,
                  res_tokensUsed = None\<rparr>) ms"

definition executeTrigger :: "env \<Rightarrow> TriggerOptions \<Rightarrow> world \<Rightarrow> (exn + TriggerResult) \<times> world" where
  "executeTrigger e options w =
     (let ms = opt_models options; email = opt_accountEmail options in
      if length ms = 0 then (Inr \<lparr>all_success = True, results = []\<rparr>, w)
      else
        let tokenManager = getTokenManagerForAccount e (trace w) email;
            w1 = w\<lparr>trace := trace w @ [TokenManagerRequested email]\<rparr>
        in case tokenManager of
             Some err \<Rightarrow>
               (let rs = failAll ms (''Failed to get credentials for '' @ email)
                in case recordResults e rs options w1 of
                     (Inl x, w2) \<Rightarrow> (Inl x, w2)
                   | (Inr u, w2) \<Rightarrow> (Inr \<lparr>all_success = False, results = rs\<rparr>, w2))
           | None \<Rightarrow>
               let token = getValidAccessToken e (trace w1) email;
                   w2 = w1\<lparr>trace := trace w1 @ [AccessTokenRequested email]\<rparr>
               in case token of
                    Some err \<Rightarrow>
                      (let errorMessage =
                             (case err of
                                DetailedError m d \<Rightarrow> d
                              | PlainError m \<Rightarrow> ''Token refresh failed: '' @ m
                              | NonError s \<Rightarrow> ''Authentication failed for '' @ email);
                           rs = failAll ms errorMessage
                       in case recordResults e rs options w2 of
                            (Inl x, w3) \<Rightarrow> (Inl x, w3)
                          | (Inr u, w3) \<Rightarrow> (Inr \<lparr>all_success = False, results = rs\<rparr>, w3))
                  | None \<Rightarrow>
                      let w3 = w2\<lparr>trace := trace w2 @ [ProjectIdRequested email]\<rparr>;
                          userPrompt = promptOf (opt_customPrompt options);
                          (rs, w4) = triggerBatches e email ms userPrompt
                                       (opt_maxOutputTokens options) 0 w3
                      in case recordResults e rs options w4 of
                           (Inl x, w5) \<Rightarrow> (Inl x, w5)
                         | (Inr u, w5) \<Rightarrow>
                             (Inr \<lparr>all_success = list_all res_success rs, results = rs\<rparr>, w5))"

section \<open>Reset detector\<close>

definition DEFAULT_COOLDOWN_MS :: int where
  "DEFAULT_COOLDOWN_MS = 60 * 60 * 1000"

definition getAllValidAccounts :: "AccountManager \<Rightarrow> string list" where
  "getAllValidAccounts am =
     filter (\<lambda>email. getAccountStatus am email = Valid \<or> getAccountStatus am email = Expired)
       (getAccountEmails am)"

text \<open>
  The cooldown test of the loop on \<open>previousState = resetState[model.modelId]\<close>:
  there is a previous state and the remaining cooldown is positive. A
  \<open>lastTriggeredTime\<close> that is no date, and the missing \<open>lastTriggeredTime\<close> of what
  is inherited, give \<open>NaN\<close>, which is not greater than 0.
\<close>

definition inCooldown :: "env \<Rightarrow> int \<Rightarrow> ModelResetState property \<Rightarrow> bool" where
  "inCooldown e now previousState =
     (case previousState of
        Undefined \<Rightarrow> False
      | Inherited \<Rightarrow> False
      | Own st \<Rightarrow>
          (case dateGetTime e (lastTriggeredTime st) of
             None \<Rightarrow> False
           | Some lastTriggered \<Rightarrow>
               (let cooldownRemaining = DEFAULT_COOLDOWN_MS - (now - lastTriggered)
                in cooldownRemaining > 0)))"

text \<open>
  The loop over \<open>snapshot.models\<close>, with the reset state and the time that were read
  before it. \<open>acc\<close> is \<open>modelsToTrigger\<close> so far.
\<close>

fun scanModels :: "env \<Rightarrow> ResetState \<Rightarrow> int \<Rightarrow> ModelQuotaInfo list \<Rightarrow> string list \<Rightarrow> world \<Rightarrow> (exn + string list) \<times> world" where
  "scanModels e resetState now [] acc w = (Inr acc, w)"
| "scanModels e resetState now (model # rest) acc w =
     (if \<not> isModelUnused model then scanModels e resetState now rest acc w
      else if inCooldown e now (getProperty resetState (modelId model))
      then scanModels e resetState now rest acc w
      else
        let (resetAt, w1) =
              (case resetTime model of
                 None \<Rightarrow> Date_nowISO e w
               | Some s \<Rightarrow> if s = [] then Date_nowISO e w else (s, w))
        in case updateResetState e (modelId model) resetAt w1 of
             (Inl err, w2) \<Rightarrow> (Inl err, w2)
           | (Inr u, w2) \<Rightarrow> scanModels e resetState now rest (acc @ [modelId model]) w2)"

text \<open>
  The loop over the accounts: an exception of \<open>executeTrigger\<close> is caught and logged,
  and the loop goes on with the next account.
\<close>

fun triggerAccounts :: "env \<Rightarrow> WakeupConfig \<Rightarrow> string list \<Rightarrow> string list \<Rightarrow> nat \<Rightarrow> world \<Rightarrow> nat \<times> world" where
  "triggerAccounts e config modelsToTrigger [] successCount w = (successCount, w)"
| "triggerAccounts e config modelsToTrigger (email # rest) successCount w =
     (case executeTrigger e
             \<lparr>opt_models = modelsToTrigger, opt_accountEmail = email,
              opt_triggerType = TypeAuto, opt_triggerSource = SourceQuotaReset,
              opt_customPrompt = customPrompt config,
              opt_maxOutputTokens = Some (maxOutputTokens config)\<rparr> w of
        (Inl err, w1) \<Rightarrow> triggerAccounts e config modelsToTrigger rest successCount w1
      | (Inr result, w1) \<Rightarrow>
          let modelSuccess = length (filter res_success (results result))
          in triggerAccounts e config modelsToTrigger rest
               (if modelSuccess > 0 then successCount + 1 else successCount) w1)"

definition detectResetAndTrigger :: "env \<Rightarrow> QuotaSnapshot \<Rightarrow> world \<Rightarrow> (exn + DetectionResult) \<times> world" where
  "detectResetAndTrigger e snapshot w =
     (case loadWakeupConfig w of
        Inl err \<Rightarrow> (Inl err, w)
      | Inr None \<Rightarrow> (Inr \<lparr>triggered = False, triggeredModels = []\<rparr>, w)
      | Inr (Some config) \<Rightarrow>
          if \<not> enabled config then (Inr \<lparr>triggered = False, triggeredModels = []\<rparr>, w)
          else
            let accounts = getAllValidAccounts (accountManager e) in
            if length accounts = 0 then (Inr \<lparr>triggered = False, triggeredModels = []\<rparr>, w)
            else
              (case loadResetState w of
                 Inl err \<Rightarrow> (Inl err, w)
               | Inr resetState \<Rightarrow>
                   let (now, w1) = Date_now e w in
                   case scanModels e resetState now (models snapshot) [] w1 of
                     (Inl err, w2) \<Rightarrow> (Inl err, w2)
                   | (Inr modelsToTrigger, w2) \<Rightarrow>
                       if length modelsToTrigger = 0
                       then (Inr \<lparr>triggered = False, triggeredModels = []\<rparr>, w2)
                       else
                         let (successCount, w3) =
                               triggerAccounts e config modelsToTrigger accounts 0 w2
                         in (Inr \<lparr>triggered = True, triggeredModels = modelsToTrigger\<rparr>, w3)))"

definition findUnusedModels :: "QuotaSnapshot \<Rightarrow> ModelQuotaInfo list" where
  "findUnusedModels snapshot = filter isModelUnused (models snapshot)"

definition hasUnusedModels :: "QuotaSnapshot \<Rightarrow> bool" where
  "hasUnusedModels snapshot = list_ex isModelUnused (models snapshot)"

section \<open>Project resolution in the Cloud Code client\<close>





text \<open>
  What a request of the client gives: the call fails, the response is not ok (with its
  HTTP status), or the response is ok (with its body). \<open>request\<close> throws in the first
  two cases, so only \<open>Ok\<close> returns.
\<close>

datatype 'a fetched = Failed | Status nat | Ok 'a









section \<open>Scenarios\<close>

text \<open>A sequence of calls of \<open>addTriggerRecord\<close>, one per record, oldest first.\<close>

fun addTriggerRecords :: "TriggerRecord list \<Rightarrow> world \<Rightarrow> (exn + unit) \<times> world" where
  "addTriggerRecords [] w = (Inr (), w)"
| "addTriggerRecords (rec # rest) w =
     (case addTriggerRecord rec w of
        (Inl err, w1) \<Rightarrow> (Inl err, w1)
      | (Inr u, w1) \<Rightarrow> addTriggerRecords rest w1)"

text \<open>The models for which a generation request was issued, in the order of a trace.\<close>

fun requestedModels :: "event list \<Rightarrow> string list" where
  "requestedModels [] = []"
| "requestedModels (GenerationRequested client mid p mt # evs) = mid # requestedModels evs"
| "requestedModels (ev # evs) = requestedModels evs"

text \<open>The events that a run added to the trace it started from.\<close>

definition newEvents :: "world \<Rightarrow> world \<Rightarrow> event list" where
  "newEvents w w1 = drop (length (trace w)) (trace w1)"

text \<open>
  The models of a snapshot that are due: unused, and not in cooldown with respect to a
  reset state and a time.
\<close>

definition dueModels :: "env \<Rightarrow> ResetState \<Rightarrow> int \<Rightarrow> ModelQuotaInfo list \<Rightarrow> ModelQuotaInfo list" where
  "dueModels e resetState now ms =
     filter (\<lambda>model. isModelUnused model \<and>
                      \<not> inCooldown e now (getProperty resetState (modelId model))) ms"

section \<open>Example inputs\<close>

definition example_record :: "nat \<Rightarrow> TriggerRecord" where
  "example_record n =
     \<lparr>timestamp = ''2024-01-01T00:00:00.000Z'', success = True, triggerType = TypeAuto,
      triggerSource = SourceScheduled, record_models = [''model''],
      accountEmail = ''test@example.com'', durationMs = int n, prompt = ''hi'',
      response = None, error = None, tokensUsed = None\<rparr>"

definition empty_world :: world where
  "empty_world =
     \<lparr>configFile = Absent, historyFile = Absent, resetStateFile = Absent,
      modelMappingFile = Absent, writable = (\<lambda>f. True), trace = []\<rparr>"

definition corrupt_world :: world where
  "corrupt_world =
     \<lparr>configFile = Corrupt, historyFile = Corrupt, resetStateFile = Corrupt,
      modelMappingFile = Corrupt, writable = (\<lambda>f. True), trace = []\<rparr>"

text \<open>The default configuration of \<open>getDefaultConfig\<close>, enabled.\<close>

definition enabled_config :: WakeupConfig where
  "enabled_config =
     \<lparr>enabled = True, selectedModels = [''claude-sonnet-4-5'', ''gemini-3-flash''],
      selectedAccounts = None, customPrompt = None, maxOutputTokens = 1,
      scheduleMode = Interval, intervalHours = Some 6, dailyTimes = Some [''09:00''],
      weeklySchedule = Some [], cronExpression = None, wakeOnReset = False,
      resetCooldownMinutes = 10\<rparr>"

definition enabled_world :: world where
  "enabled_world = empty_world\<lparr>configFile := Doc (Some enabled_config)\<rparr>"

text \<open>One valid account, \<open>a@x.com\<close>.\<close>

definition example_manager :: AccountManager where
  "example_manager =
     \<lparr>hasAccount = (\<lambda>email. email = ''a@x.com''),
      getAccountStatus = (\<lambda>email. if email = ''a@x.com'' then Valid else Invalid),
      getActiveEmail = Some ''a@x.com'',
      getAccountEmails = [''a@x.com'']\<rparr>"

text \<open>
  A run at 2023-11-14T22:13:20Z (1700000000000 ms) in which the account is found, every
  generation request is answered, and the refresh of the credential is rejected for good.
\<close>

definition refresh_rejected :: rejection where
  "refresh_rejected =
     DetailedError ''Refresh token invalid or expired. Please login again.''
       ''Refresh token invalid or expired. Please login again.: invalid_grant''"

definition example_env :: env where
  "example_env =
     \<lparr>accountManager = example_manager,
      clock = (\<lambda>tr. 1700000000000),
      toISOString = (\<lambda>t. if t = 1700000000000 then ''2023-11-14T22:13:20.000Z''
                          else if t = 1699999400000 then ''2023-11-14T22:03:20.000Z''
                          else []),
      dateGetTime = (\<lambda>s. if s = ''2023-11-14T22:13:20.000Z'' then Some 1700000000000
                          else if s = ''2023-11-14T22:03:20.000Z'' then Some 1699999400000
                          else None),
      getTokenManagerForAccount = (\<lambda>tr email. None),
      getValidAccessToken = (\<lambda>tr email. Some refresh_rejected),
      generateContent = (\<lambda>tr client mid p mt. Responded ''Hello'' None)\<rparr>"

text \<open>The same run with a credential that is valid.\<close>

definition working_env :: env where
  "working_env = example_env\<lparr>getValidAccessToken := (\<lambda>tr email. None)\<rparr>"

text \<open>A model at 100% with 5 hours until its reset.\<close>

definition M1 :: ModelQuotaInfo where
  "M1 = \<lparr>label = ''M1'', modelId = ''M1'', remainingPercentage = Some (Finite 100),
          isExhausted = False, resetTime = Some ''2023-11-15T03:13:20.000Z'',
          timeUntilResetMs = Some (Finite 18000000)\<rparr>"

text \<open>The same model with a time until reset, and with a percentage, that is no number.\<close>

definition M1_NaN_time :: ModelQuotaInfo where
  "M1_NaN_time = M1\<lparr>timeUntilResetMs := Some NaN\<rparr>"

definition M1_NaN_percentage :: ModelQuotaInfo where
  "M1_NaN_percentage = M1\<lparr>remainingPercentage := Some NaN\<rparr>"

definition M1_snapshot :: QuotaSnapshot where
  "M1_snapshot = \<lparr>snapshotTimestamp = ''2023-11-14T22:13:20.000Z'', models = [M1]\<rparr>"

text \<open>An entry of the reset state written 10 minutes before the run.\<close>

definition ten_minutes_ago :: ModelResetState where
  "ten_minutes_ago =
     \<lparr>lastResetAt = ''2023-11-15T03:03:20.000Z'',
      lastTriggeredTime = ''2023-11-14T22:03:20.000Z''\<rparr>"

text \<open>
  A model mapping that gives \<open>M1\<close> the reset key \<open>POOL\<close>, and a reset state in
  which \<open>POOL\<close> was triggered 10 minutes before the run.
\<close>

definition pool_world :: world where
  "pool_world =
     enabled_world\<lparr>modelMappingFile := Doc [''M1'' \<mapsto> ''POOL''],
                   resetStateFile := Doc [''POOL'' \<mapsto> ten_minutes_ago]\<rparr>"






section \<open>The unused-model predicate\<close>

lemma reset_window_ms:
  "RESET_TIME_MIN_MS = 16200000" "RESET_TIME_MAX_MS = 19800000"
  by (simp_all add: RESET_TIME_MIN_MS_def RESET_TIME_MAX_MS_def
        RESET_TIME_MIN_HOURS_def RESET_TIME_MAX_HOURS_def)

lemma js_lt_NaN [simp]: "js_lt NaN b = False" "js_lt a NaN = False"
  by (cases b; simp) (cases a; simp)

text \<open>
  On records whose present fields are numbers other than \<open>NaN\<close>, the predicate is
  the one of the specification: both fields present, the percentage at least 99, the
  time in the closed interval from 4.5 hours to 5.5 hours in milliseconds.
\<close>

lemma isModelUnused_numbers:
  assumes "remainingPercentage model \<noteq> Some NaN" and "timeUntilResetMs model \<noteq> Some NaN"
  shows "isModelUnused model =
     (\<exists>pct ms. remainingPercentage model = Some pct \<and> js_ge pct (Finite 99) \<and>
        timeUntilResetMs model = Some ms \<and>
        js_ge ms (Finite (4.5 * 60 * 60 * 1000)) \<and> js_le ms (Finite (5.5 * 60 * 60 * 1000)))"
  using assms
  by (auto simp: isModelUnused_def FULL_QUOTA_THRESHOLD_def reset_window_ms
        js_ge_def js_le_def js_gt_def split: option.splits)

lemma isModelUnused_finite:
  "isModelUnused (model\<lparr>remainingPercentage := Some (Finite pct),
                         timeUntilResetMs := Some (Finite ms)\<rparr>) =
     (99 \<le> pct \<and> 16200000 \<le> ms \<and> ms \<le> 19800000)"
  by (auto simp: isModelUnused_def FULL_QUOTA_THRESHOLD_def reset_window_ms js_gt_def)

lemma isModelUnused_absent:
  "remainingPercentage model = None \<or> timeUntilResetMs model = None \<Longrightarrow>
   \<not> isModelUnused model"
  by (auto simp: isModelUnused_def split: option.splits)

text \<open>
  C1 at two records. A time until reset that is \<open>NaN\<close> is neither below the lower
  bound nor above the upper bound for the comparisons of the code, so the record passes
  every guard and the predicate is true, although the time is not in the interval; the
  same happens with a percentage that is \<open>NaN\<close>, which is not at least 99.
\<close>

theorem isModelUnused_NaN:
  "timeUntilResetMs M1_NaN_time = Some NaN \<and>
   \<not> js_ge NaN (Finite (4.5 * 60 * 60 * 1000)) \<and>
   \<not> js_le NaN (Finite (5.5 * 60 * 60 * 1000)) \<and>
   isModelUnused M1_NaN_time \<and>
   remainingPercentage M1_NaN_percentage = Some NaN \<and>
   \<not> js_ge NaN (Finite 99) \<and>
   isModelUnused M1_NaN_percentage"
  by (simp add: M1_NaN_time_def M1_NaN_percentage_def M1_def isModelUnused_def
        FULL_QUOTA_THRESHOLD_def reset_window_ms js_ge_def js_le_def js_gt_def)

section \<open>Reading and writing the documents\<close>

lemma readJsonFile_cases:
  "readJsonFile Absent d = Inr d"
  "readJsonFile Corrupt d = Inr d"
  "readJsonFile (Doc v) d = Inr v"
  by (simp_all add: readJsonFile_def readJsonFile_try_def)

lemma readJsonFile_total: "\<exists>v. readJsonFile f d = Inr v"
  by (cases f) (simp_all add: readJsonFile_cases)

text \<open>
  C7, as the spec has it, fails: with all four documents present and unparseable, each
  loader returns its default value (no configuration, the empty history, the empty reset
  state, the empty mapping) and raises nothing.
\<close>

theorem corrupt_documents_counterexample:
  "configFile corrupt_world = Corrupt \<and> loadWakeupConfig corrupt_world = Inr None \<and>
   historyFile corrupt_world = Corrupt \<and> loadTriggerHistory corrupt_world = Inr [] \<and>
   resetStateFile corrupt_world = Corrupt \<and> loadResetState corrupt_world = Inr Map.empty \<and>
   modelMappingFile corrupt_world = Corrupt \<and> loadModelMapping corrupt_world = Inr Map.empty"
  by (simp add: corrupt_world_def loadWakeupConfig_def loadTriggerHistory_def
        loadResetState_def loadModelMapping_def readJsonFile_cases)

text \<open>
  C7, amended. Parsing an unparseable document raises inside \<open>readJsonFile\<close>, which
  catches the exception and returns the default value: loading an unparseable
  configuration gives no configuration, an unparseable history the empty history, an
  unparseable reset state the empty state, an unparseable model mapping the empty
  mapping, and no exception reaches the caller.
\<close>

theorem corrupt_documents_default:
  "readJsonFile_try (Corrupt :: 'a jsonfile) = Inl SyntaxError \<and>
   readJsonFile (Corrupt :: 'a jsonfile) d = Inr d \<and>
   loadWakeupConfig (w\<lparr>configFile := Corrupt\<rparr>) = Inr None \<and>
   loadTriggerHistory (w\<lparr>historyFile := Corrupt\<rparr>) = Inr [] \<and>
   loadResetState (w\<lparr>resetStateFile := Corrupt\<rparr>) = Inr Map.empty \<and>
   loadModelMapping (w\<lparr>modelMappingFile := Corrupt\<rparr>) = Inr Map.empty"
  by (simp add: loadWakeupConfig_def loadTriggerHistory_def
        loadResetState_def loadModelMapping_def readJsonFile_cases readJsonFile_try_def)

section \<open>The trigger history\<close>

lemma take_append_take: "take n (xs @ take n ys) = take n (xs @ ys)"
  by (simp add: min_def)

lemma loadTriggerHistory_simps [simp]:
  "loadTriggerHistory (w\<lparr>historyFile := Doc h\<rparr>) = Inr h"
  "loadTriggerHistory (w\<lparr>trace := tr\<rparr>) = loadTriggerHistory w"
  by (simp_all add: loadTriggerHistory_def readJsonFile_cases)

lemma addTriggerRecord_ok:
  assumes "writable w HISTORY_FILE_NAME" and "loadTriggerHistory w = Inr h"
  shows "addTriggerRecord r w =
           (Inr (), w\<lparr>historyFile := Doc (take MAX_HISTORY_ENTRIES (r # h))\<rparr>)"
  using assms
  by (simp add: addTriggerRecord_def saveTriggerHistory_def writeJsonFile_def Let_def)

lemma addTriggerRecords_ok:
  assumes "writable w HISTORY_FILE_NAME" and "loadTriggerHistory w = Inr h"
  shows "addTriggerRecords rs w =
           (Inr (), if rs = [] then w
                    else w\<lparr>historyFile := Doc (take MAX_HISTORY_ENTRIES (rev rs @ h))\<rparr>)"
  using assms
proof (induction rs arbitrary: w h)
  case Nil
  then show ?case by simp
next
  case (Cons r rs)
  let ?w1 = "w\<lparr>historyFile := Doc (take MAX_HISTORY_ENTRIES (r # h))\<rparr>"
  have step: "addTriggerRecord r w = (Inr (), ?w1)"
    using Cons.prems by (rule addTriggerRecord_ok)
  have w1: "writable ?w1 HISTORY_FILE_NAME"
    using Cons.prems by simp
  have "addTriggerRecords rs ?w1 =
          (Inr (), if rs = [] then ?w1
                   else ?w1\<lparr>historyFile :=
                          Doc (take MAX_HISTORY_ENTRIES
                                 (rev rs @ take MAX_HISTORY_ENTRIES (r # h)))\<rparr>)"
    by (rule Cons.IH [OF w1]) simp
  then show ?case
    using step by (simp add: take_append_take)
qed

text \<open>
  C4. Starting from an empty history, 105 calls of \<open>addTriggerRecord\<close> leave a
  history of exactly 100 records: the 100 records appended last, the newest first.
  \<open>rs\<close> lists the appended records in the order of the calls.
\<close>

theorem history_ring_buffer:
  assumes "length rs = 105"
    and "writable w HISTORY_FILE_NAME"
    and "loadTriggerHistory w = Inr []"
  shows "fst (addTriggerRecords rs w) = Inr () \<and>
         loadTriggerHistory (snd (addTriggerRecords rs w)) = Inr (rev (drop 5 rs)) \<and>
         length (rev (drop 5 rs)) = 100 \<and>
         rev (drop 5 rs) = take 100 (rev rs)"
proof -
  have ne: "rs \<noteq> []"
    using assms(1) by auto
  have t: "take 100 (rev rs) = rev (drop 5 rs)"
    using assms(1) by (simp add: take_rev)
  show ?thesis
    using addTriggerRecords_ok [OF assms(2,3), of rs] ne t assms(1)
    by (simp add: MAX_HISTORY_ENTRIES_def)
qed

theorem history_ring_buffer_witness:
  "length (map example_record [0..<105]) = 105 \<and>
   writable empty_world HISTORY_FILE_NAME \<and>
   loadTriggerHistory empty_world = Inr [] \<and>
   fst (addTriggerRecords (map example_record [0..<105]) empty_world) = Inr () \<and>
   loadTriggerHistory (snd (addTriggerRecords (map example_record [0..<105]) empty_world)) =
     Inr (rev (drop 5 (map example_record [0..<105]))) \<and>
   length (rev (drop 5 (map example_record [0..<105]))) = 100"
proof -
  have h1: "length (map example_record [0..<105]) = 105"
    by simp
  have h2: "writable empty_world HISTORY_FILE_NAME"
    by (simp add: empty_world_def)
  have h3: "loadTriggerHistory empty_world = Inr []"
    by (simp add: empty_world_def loadTriggerHistory_def readJsonFile_cases)
  from history_ring_buffer [OF h1 h2 h3] show ?thesis
    using h1 h2 h3 by blast
qed

section \<open>The reset state\<close>

lemma Date_nowISO_eq:
  "Date_nowISO e w =
     (toISOString e (clock e (trace w)), w\<lparr>trace := trace w @ [ClockRead]\<rparr>)"
  by (simp add: Date_nowISO_def Date_now_def)

lemma loadResetState_simps [simp]:
  "loadResetState (w\<lparr>resetStateFile := Doc st\<rparr>) = Inr st"
  "loadResetState (w\<lparr>trace := tr\<rparr>) = loadResetState w"
  "loadResetState (w\<lparr>historyFile := hf\<rparr>) = loadResetState w"
  by (simp_all add: loadResetState_def readJsonFile_cases)

lemma loadResetState_total: "\<exists>st. loadResetState w = Inr st"
  using readJsonFile_total [of "resetStateFile w" Map.empty]
  by (simp add: loadResetState_def)

lemma getProperty_setProperty_other:
  "k' \<noteq> k \<Longrightarrow> getProperty (setProperty obj k v) k' = getProperty obj k'"
  by (simp add: getProperty_def setProperty_def)

lemma getProperty_setProperty_same:
  "k \<noteq> ''__proto__'' \<Longrightarrow> getProperty (setProperty obj k v) k = Own v"
  by (simp add: getProperty_def setProperty_def)

lemma updateResetState_eq:
  assumes "loadResetState w = Inr st"
  shows "updateResetState e k resetAt w =
     (if writable w RESET_STATE_FILE_NAME
      then (Inr (), w\<lparr>trace := trace w @ [ClockRead],
                      resetStateFile := Doc (setProperty st k \<lparr>lastResetAt = resetAt,
                         lastTriggeredTime = toISOString e (clock e (trace w))\<rparr>)\<rparr>)
      else (Inl (WriteError RESET_STATE_FILE_NAME), w\<lparr>trace := trace w @ [ClockRead]\<rparr>))"
  using assms
  by (simp add: updateResetState_def Date_nowISO_eq saveResetState_def writeJsonFile_def)

text \<open>
  For a key other than \<open>__proto__\<close>, \<open>updateResetState\<close> maps the key to the entry
  made of \<open>resetAt\<close> and the time of the call, when the write succeeds; and for every
  key, the entry of every other key of the persisted reset state stays as it was.
\<close>

lemma updateResetState_frame:
  "(writable w RESET_STATE_FILE_NAME \<and> k \<noteq> ''__proto__'' \<longrightarrow>
      fst (updateResetState e k resetAt w) = Inr () \<and>
      getModelResetState (snd (updateResetState e k resetAt w)) k =
        Inr (Own \<lparr>lastResetAt = resetAt,
                  lastTriggeredTime = toISOString e (clock e (trace w))\<rparr>)) \<and>
   (k' \<noteq> k \<longrightarrow>
      getModelResetState (snd (updateResetState e k resetAt w)) k' = getModelResetState w k')"
proof -
  obtain st where st: "loadResetState w = Inr st"
    using loadResetState_total by blast
  show ?thesis
    using st
    by (simp add: updateResetState_eq [OF st] getModelResetState_def
          getProperty_setProperty_other getProperty_setProperty_same)
qed

text \<open>
  C10 at the key \<open>__proto__\<close>, from an empty reset state. The assignment replaces
  the prototype of the state object and stores no own property, so the state that is
  saved is empty: the key is not mapped to the new entry, and reading it back gives
  what is inherited, the prototype, and not the entry.
\<close>

theorem updateResetState_proto:
  "loadResetState empty_world = Inr Map.empty \<and>
   writable empty_world RESET_STATE_FILE_NAME \<and>
   fst (updateResetState example_env ''__proto__'' ''2023-11-15T03:13:20.000Z'' empty_world) =
     Inr () \<and>
   loadResetState
     (snd (updateResetState example_env ''__proto__'' ''2023-11-15T03:13:20.000Z'' empty_world)) =
     Inr Map.empty \<and>
   getModelResetState
     (snd (updateResetState example_env ''__proto__'' ''2023-11-15T03:13:20.000Z'' empty_world))
     ''__proto__'' = Inr Inherited \<and>
   getModelResetState
     (snd (updateResetState example_env ''__proto__'' ''2023-11-15T03:13:20.000Z'' empty_world))
     ''__proto__'' \<noteq>
     Inr (Own \<lparr>lastResetAt = ''2023-11-15T03:13:20.000Z'',
               lastTriggeredTime = ''2023-11-14T22:13:20.000Z''\<rparr>)"
proof -
  have st: "loadResetState empty_world = Inr Map.empty"
    by (simp add: empty_world_def loadResetState_def readJsonFile_cases)
  have wr: "writable empty_world RESET_STATE_FILE_NAME"
    by (simp add: empty_world_def)
  have keep: "setProperty Map.empty ''__proto__'' v = Map.empty" for v :: ModelResetState
    by (simp add: setProperty_def)
  have run: "updateResetState example_env ''__proto__'' ''2023-11-15T03:13:20.000Z'' empty_world =
      (Inr (), empty_world\<lparr>trace := trace empty_world @ [ClockRead],
                            resetStateFile := Doc Map.empty\<rparr>)"
    using wr by (simp add: updateResetState_eq [OF st] keep)
  have proto: "getProperty (Map.empty :: ResetState) ''__proto__'' = Inherited"
    by (simp add: getProperty_def objectPrototypeKeys_def)
  show ?thesis
    using st wr by (simp add: run getModelResetState_def proto)
qed

section \<open>The account resolver\<close>

text \<open>
  C8. An explicit empty selection resolves to no account, whatever the directory holds;
  an explicit selection resolves to its members that exist in the directory with status
  valid or expired, in the order of the selection.
\<close>

theorem resolveAccounts_explicit:
  "resolveAccounts am (Some []) = [] \<and>
   resolveAccounts am (Some sel) =
     filter (\<lambda>email. hasAccount am email \<and>
               (getAccountStatus am email = Valid \<or> getAccountStatus am email = Expired)) sel"
proof -
  have "(getAccountStatus am email \<noteq> Invalid) =
        (getAccountStatus am email = Valid \<or> getAccountStatus am email = Expired)" for email
    by (cases "getAccountStatus am email") simp_all
  then show ?thesis
    by (auto simp: resolveAccounts_def intro!: filter_cong)
qed

section \<open>The trigger service\<close>

lemma requestedModels_append [simp]:
  "requestedModels (xs @ ys) = requestedModels xs @ requestedModels ys"
  by (induction xs rule: requestedModels.induct) simp_all

lemma newEvents_append [simp]: "newEvents w (w1\<lparr>trace := trace w @ evs\<rparr>) = evs"
  by (simp add: newEvents_def)

text \<open>
  C9. With an empty model list \<open>executeTrigger\<close> returns success with no results
  and leaves the world as it found it: the trace gains no event (no credential is asked
  for or refreshed) and the history file is the same.
\<close>

theorem executeTrigger_no_models:
  "executeTrigger e (options\<lparr>opt_models := []\<rparr>) w =
     (Inr \<lparr>all_success = True, results = []\<rparr>, w)"
  by (simp add: executeTrigger_def)

text \<open>What the trigger functions change: the trace, by the requests they issue.\<close>

lemma triggerSingleModel_world:
  "\<exists>evs. snd (triggerSingleModel e c mid p mt w) = w\<lparr>trace := trace w @ evs\<rparr> \<and>
         requestedModels evs = [mid]"
  by (auto simp: triggerSingleModel_def Date_now_def Let_def split: generation.splits)

lemma triggerBatch_world:
  "\<exists>evs. snd (triggerBatch e c ms p mt w) = w\<lparr>trace := trace w @ evs\<rparr> \<and>
         requestedModels evs = ms"
proof (induction ms arbitrary: w)
  case Nil
  show ?case by (rule exI [of _ "[]"]) simp
next
  case (Cons mid ms)
  obtain r w1 where s: "triggerSingleModel e c mid p mt w = (r, w1)"
    by (cases "triggerSingleModel e c mid p mt w")
  obtain evs1 where e1: "w1 = w\<lparr>trace := trace w @ evs1\<rparr>" "requestedModels evs1 = [mid]"
    using triggerSingleModel_world [of e c mid p mt w] s by auto
  obtain rs w2 where b: "triggerBatch e c ms p mt w1 = (rs, w2)"
    by (cases "triggerBatch e c ms p mt w1")
  obtain evs2 where e2: "w2 = w1\<lparr>trace := trace w1 @ evs2\<rparr>" "requestedModels evs2 = ms"
    using Cons.IH [of w1] b by auto
  have "snd (triggerBatch e c (mid # ms) p mt w) = w\<lparr>trace := trace w @ (evs1 @ evs2)\<rparr>"
    using s b e1 e2 by simp
  moreover have "requestedModels (evs1 @ evs2) = mid # ms"
    using e1 e2 by simp
  ultimately show ?case by blast
qed

declare triggerBatches.simps [simp del]

lemma triggerBatches_world:
  "\<exists>evs. snd (triggerBatches e c ms p mt i w) = w\<lparr>trace := trace w @ evs\<rparr> \<and>
         requestedModels evs = drop i ms"
proof (induction e c ms p mt i w rule: triggerBatches.induct)
  case (1 e c ms p mt i w)
  show ?case
  proof (cases "i < length ms")
    case False
    then have "snd (triggerBatches e c ms p mt i w) = w\<lparr>trace := trace w @ []\<rparr>"
      by (simp add: triggerBatches.simps [of e c ms p mt i w])
    with False show ?thesis by (intro exI [of _ "[]"]) simp
  next
    case True
    let ?batch = "take MAX_CONCURRENT_REQUESTS (drop i ms)"
    obtain rs w1 where b: "triggerBatch e c ?batch p mt w = (rs, w1)"
      by (cases "triggerBatch e c ?batch p mt w")
    obtain evs1 where e1: "w1 = w\<lparr>trace := trace w @ evs1\<rparr>"
        "requestedModels evs1 = ?batch"
      using triggerBatch_world [of e c ?batch p mt w] b by auto
    obtain later w2 where
      l: "triggerBatches e c ms p mt (i + MAX_CONCURRENT_REQUESTS) w1 = (later, w2)"
      by (cases "triggerBatches e c ms p mt (i + MAX_CONCURRENT_REQUESTS) w1")
    obtain evs2 where e2: "w2 = w1\<lparr>trace := trace w1 @ evs2\<rparr>"
        "requestedModels evs2 = drop (i + MAX_CONCURRENT_REQUESTS) ms"
      using "1.IH" [OF True refl refl b [symmetric]] l by auto
    have "snd (triggerBatches e c ms p mt i w) = w\<lparr>trace := trace w @ (evs1 @ evs2)\<rparr>"
      using True b l e1 e2
      by (simp add: triggerBatches.simps [of e c ms p mt i w])
    moreover have "requestedModels (evs1 @ evs2) = drop i ms"
    proof -
      have "drop i ms = ?batch @ drop MAX_CONCURRENT_REQUESTS (drop i ms)"
        by (rule append_take_drop_id [symmetric])
      also have "drop MAX_CONCURRENT_REQUESTS (drop i ms) =
                   drop (i + MAX_CONCURRENT_REQUESTS) ms"
        by (simp add: add.commute)
      finally show ?thesis
        using e1 e2 by (simp only: requestedModels_append)
    qed
    ultimately show ?thesis by blast
  qed
qed

text \<open>What recording and a whole trigger run change: the trace and the history file.\<close>

lemma addTriggerRecord_world:
  "\<exists>hf. snd (addTriggerRecord r w) = w\<lparr>historyFile := hf\<rparr>"
proof -
  obtain h where h: "loadTriggerHistory w = Inr h"
    using readJsonFile_total [of "historyFile w" "[]"] by (auto simp: loadTriggerHistory_def)
  show ?thesis
  proof (cases "writable w HISTORY_FILE_NAME")
    case True
    then show ?thesis using addTriggerRecord_ok [OF True h, of r] by auto
  next
    case False
    then have "snd (addTriggerRecord r w) = w\<lparr>historyFile := historyFile w\<rparr>"
      using h by (simp add: addTriggerRecord_def saveTriggerHistory_def writeJsonFile_def Let_def)
    then show ?thesis by blast
  qed
qed

lemma recordResults_world:
  "\<exists>evs hf. snd (recordResults e rs options w) = w\<lparr>trace := trace w @ evs, historyFile := hf\<rparr> \<and>
     requestedModels evs = []"
proof (induction rs arbitrary: w)
  case Nil
  have "snd (recordResults e [] options w) = w\<lparr>trace := trace w @ [], historyFile := historyFile w\<rparr>"
    by simp
  then show ?case by (intro exI [of _ "[]"] exI [of _ "historyFile w"]) simp
next
  case (Cons r rs)
  let ?w1 = "w\<lparr>trace := trace w @ [ClockRead]\<rparr>"
  let ?rec = "toTriggerRecord options r (toISOString e (clock e (trace w)))"
  obtain out w2 where a: "addTriggerRecord ?rec ?w1 = (out, w2)"
    by (cases "addTriggerRecord ?rec ?w1")
  obtain hf where w2: "w2 = ?w1\<lparr>historyFile := hf\<rparr>"
    using addTriggerRecord_world [of ?rec ?w1] a by auto
  show ?case
  proof (cases out)
    case (Inl err)
    then have "snd (recordResults e (r # rs) options w) = w\<lparr>trace := trace w @ [ClockRead], historyFile := hf\<rparr>"
      using a w2 by (simp add: Date_nowISO_eq)
    then show ?thesis by (intro exI [of _ "[ClockRead]"] exI [of _ hf]) simp
  next
    case (Inr u)
    obtain evs hf2 where r: "snd (recordResults e rs options w2) = w2\<lparr>trace := trace w2 @ evs, historyFile := hf2\<rparr>"
        "requestedModels evs = []"
      using Cons.IH [of w2] by blast
    have "snd (recordResults e (r # rs) options w) = w\<lparr>trace := trace w @ (ClockRead # evs), historyFile := hf2\<rparr>"
      using a w2 Inr r by (simp add: Date_nowISO_eq)
    then show ?thesis using r(2) by (intro exI [of _ "ClockRead # evs"] exI [of _ hf2]) simp
  qed
qed

lemma snd_case_result:
  "snd (case p of (Inl x, wa) \<Rightarrow> (Inl x, wa) | (Inr u, wa) \<Rightarrow> (Inr (f u), wa)) = snd p"
  by (auto split: prod.splits sum.splits)

lemma snd_executeTrigger:
  "snd (executeTrigger e options w) =
     (let ms = opt_models options; email = opt_accountEmail options;
          w1 = w\<lparr>trace := trace w @ [TokenManagerRequested email]\<rparr>;
          w2 = w\<lparr>trace := trace w @ [TokenManagerRequested email, AccessTokenRequested email]\<rparr>;
          w3 = w\<lparr>trace := trace w @ [TokenManagerRequested email, AccessTokenRequested email,
                                       ProjectIdRequested email]\<rparr>;
          b = triggerBatches e email ms (promptOf (opt_customPrompt options))
                (opt_maxOutputTokens options) 0 w3
      in if ms = [] then w
         else case getTokenManagerForAccount e (trace w) email of
                Some err \<Rightarrow>
                  snd (recordResults e (failAll ms (''Failed to get credentials for '' @ email))
                         options w1)
              | None \<Rightarrow>
                  (case getValidAccessToken e (trace w1) email of
                     Some err \<Rightarrow>
                       snd (recordResults e
                              (failAll ms
                                 (case err of
                                    DetailedError m d \<Rightarrow> d
                                  | PlainError m \<Rightarrow> ''Token refresh failed: '' @ m
                                  | NonError s \<Rightarrow> ''Authentication failed for '' @ email))
                              options w2)
                   | None \<Rightarrow> snd (recordResults e (fst b) options (snd b))))"
  unfolding executeTrigger_def Let_def
  by (simp add: snd_case_result [where f = "\<lambda>u. _"] split: option.splits prod.splits sum.splits)


lemma recordResults_after:
  "\<exists>evs hf. snd (recordResults e rs options (w\<lparr>trace := trace w @ evs0\<rparr>)) =
             w\<lparr>trace := trace w @ evs0 @ evs, historyFile := hf\<rparr> \<and>
           requestedModels evs = []"
  using recordResults_world [of e rs options "w\<lparr>trace := trace w @ evs0\<rparr>"]
  by auto

lemma executeTrigger_world:
  "\<exists>evs hf. snd (executeTrigger e options w) = w\<lparr>trace := trace w @ evs, historyFile := hf\<rparr> \<and>
     set (requestedModels evs) \<subseteq> set (opt_models options)"
proof -
  let ?ms = "opt_models options" and ?email = "opt_accountEmail options"
  let ?e1 = "[TokenManagerRequested ?email]"
  let ?e2 = "[TokenManagerRequested ?email, AccessTokenRequested ?email]"
  let ?e3 = "[TokenManagerRequested ?email, AccessTokenRequested ?email, ProjectIdRequested ?email]"
  let ?b = "triggerBatches e ?email ?ms (promptOf (opt_customPrompt options))
              (opt_maxOutputTokens options) 0 (w\<lparr>trace := trace w @ ?e3\<rparr>)"
  have fail: "\<exists>evs hf. snd (recordResults e rs options (w\<lparr>trace := trace w @ evs0\<rparr>)) =
                 w\<lparr>trace := trace w @ evs, historyFile := hf\<rparr> \<and>
               set (requestedModels evs) \<subseteq> set ?ms"
    if "requestedModels evs0 = []" for rs evs0
  proof -
    obtain evs hf where "snd (recordResults e rs options (w\<lparr>trace := trace w @ evs0\<rparr>)) =
             w\<lparr>trace := trace w @ evs0 @ evs, historyFile := hf\<rparr>" "requestedModels evs = []"
      using recordResults_after by blast
    then show ?thesis using that by (intro exI [of _ "evs0 @ evs"] exI [of _ hf]) simp
  qed
  have batches: "\<exists>evs hf. snd (recordResults e (fst ?b) options (snd ?b)) =
                 w\<lparr>trace := trace w @ evs, historyFile := hf\<rparr> \<and>
               set (requestedModels evs) \<subseteq> set ?ms"
  proof -
    obtain evs1 where e1: "snd ?b = w\<lparr>trace := trace w @ (?e3 @ evs1)\<rparr>"
        "requestedModels evs1 = ?ms"
      using triggerBatches_world [of e ?email ?ms "promptOf (opt_customPrompt options)"
              "opt_maxOutputTokens options" 0 "w\<lparr>trace := trace w @ ?e3\<rparr>"]
      by auto
    obtain evs hf where "snd (recordResults e (fst ?b) options (w\<lparr>trace := trace w @ (?e3 @ evs1)\<rparr>)) =
             w\<lparr>trace := trace w @ (?e3 @ evs1) @ evs, historyFile := hf\<rparr>" "requestedModels evs = []"
      using recordResults_after by blast
    then show ?thesis using e1
      by (intro exI [of _ "(?e3 @ evs1) @ evs"] exI [of _ hf]) simp
  qed
  have same: "\<exists>evs hf. w = w\<lparr>trace := trace w @ evs, historyFile := hf\<rparr> \<and>
               set (requestedModels evs) \<subseteq> set ?ms"
    by (intro exI [of _ "[]"] exI [of _ "historyFile w"]) simp
  show ?thesis
  proof (cases "?ms = []")
    case True
    then show ?thesis using same by (simp add: snd_executeTrigger Let_def)
  next
    case ne: False
    show ?thesis
    proof (cases "getTokenManagerForAccount e (trace w) ?email")
      case (Some err)
      then show ?thesis using ne fail [of ?e1] by (simp add: snd_executeTrigger Let_def)
    next
      case tm: None
      show ?thesis
      proof (cases "getValidAccessToken e (trace w @ ?e1) ?email")
        case (Some err)
        then show ?thesis using ne tm fail [of ?e2] by (simp add: snd_executeTrigger Let_def)
      next
        case None
        then show ?thesis using ne tm batches by (simp add: snd_executeTrigger Let_def)
      qed
    qed
  qed
qed

text \<open>A refresh of the credential that is rejected: every model fails, nothing is requested.\<close>

lemma executeTrigger_refresh_rejected:
  assumes ms: "opt_models options \<noteq> []"
    and tm: "getTokenManagerForAccount e (trace w) (opt_accountEmail options) = None"
    and tok: "getValidAccessToken e (trace w @ [TokenManagerRequested (opt_accountEmail options)])
                (opt_accountEmail options) = Some rej"
  shows "executeTrigger e options w =
     (let email = opt_accountEmail options;
          rs = failAll (opt_models options)
                 (case rej of
                    DetailedError m d \<Rightarrow> d
                  | PlainError m \<Rightarrow> ''Token refresh failed: '' @ m
                  | NonError s \<Rightarrow> ''Authentication failed for '' @ email)
      in case recordResults e rs options
                (w\<lparr>trace := trace w @ [TokenManagerRequested email, AccessTokenRequested email]\<rparr>) of
           (Inl x, w3) \<Rightarrow> (Inl x, w3)
         | (Inr u, w3) \<Rightarrow> (Inr \<lparr>all_success = False, results = rs\<rparr>, w3))"
  using assms by (simp add: executeTrigger_def Let_def)

lemma recordResults_single:
  assumes "writable w HISTORY_FILE_NAME" and "loadTriggerHistory w = Inr h"
  shows "recordResults e [r] options w =
           (Inr (), w\<lparr>trace := trace w @ [ClockRead],
                      historyFile := Doc (take MAX_HISTORY_ENTRIES
                        (toTriggerRecord options r (toISOString e (clock e (trace w))) # h))\<rparr>)"
  using assms
  by (simp add: Date_nowISO_eq addTriggerRecord_def saveTriggerHistory_def writeJsonFile_def Let_def)

lemma executeTrigger_single_rejected:
  assumes "opt_models options = [mid]"
    and "getTokenManagerForAccount e (trace w) (opt_accountEmail options) = None"
    and "getValidAccessToken e (trace w @ [TokenManagerRequested (opt_accountEmail options)])
           (opt_accountEmail options) = Some (DetailedError msg detail)"
    and "writable w HISTORY_FILE_NAME" and "loadTriggerHistory w = Inr h"
  shows "executeTrigger e options w =
     (Inr \<lparr>all_success = False,
           results = [\<lparr>res_modelId = mid, res_success = False, res_durationMs = 0,
                       res_response = None, res_error = Some detail,
                       res_tokensUsed = None\<rparr>]\<rparr>,
      w\<lparr>trace := trace w @ [TokenManagerRequested (opt_accountEmail options),
                             AccessTokenRequested (opt_accountEmail options), ClockRead],
        historyFile := Doc (take MAX_HISTORY_ENTRIES
          (\<lparr>timestamp = toISOString e (clock e (trace w @
                 [TokenManagerRequested (opt_accountEmail options),
                  AccessTokenRequested (opt_accountEmail options)])),
            success = False, triggerType = opt_triggerType options,
            triggerSource = opt_triggerSource options, record_models = [mid],
            accountEmail = opt_accountEmail options, durationMs = 0,
            prompt = promptOf (opt_customPrompt options), response = None,
            error = Some detail, tokensUsed = None\<rparr> # h))\<rparr>)"
proof -
  let ?email = "opt_accountEmail options"
  let ?w2 = "w\<lparr>trace := trace w @ [TokenManagerRequested ?email, AccessTokenRequested ?email]\<rparr>"
  have ne: "opt_models options \<noteq> []" using assms(1) by simp
  have wr: "writable ?w2 HISTORY_FILE_NAME" using assms(4) by simp
  have lh: "loadTriggerHistory ?w2 = Inr h" using assms(5) by simp
  show ?thesis
    unfolding executeTrigger_refresh_rejected [OF ne assms(2,3)] Let_def
    by (simp add: assms(1) failAll_def recordResults_single [OF wr lh] toTriggerRecord_def
          del: recordResults.simps)
qed


section \<open>The reset detector\<close>

lemma getModelResetState_simps [simp]:
  "getModelResetState (w\<lparr>trace := tr\<rparr>) k = getModelResetState w k"
  "getModelResetState (w\<lparr>historyFile := hf\<rparr>) k = getModelResetState w k"
  by (simp_all add: getModelResetState_def)

lemma triggerAccounts_world:
  "\<exists>evs hf. snd (triggerAccounts e config ms accounts n w) =
             w\<lparr>trace := trace w @ evs, historyFile := hf\<rparr> \<and>
           set (requestedModels evs) \<subseteq> set ms"
proof (induction accounts arbitrary: n w)
  case Nil
  show ?case by (intro exI [of _ "[]"] exI [of _ "historyFile w"]) simp
next
  case (Cons email rest)
  let ?opts = "\<lparr>opt_models = ms, opt_accountEmail = email,
              opt_triggerType = TypeAuto, opt_triggerSource = SourceQuotaReset,
              opt_customPrompt = customPrompt config,
              opt_maxOutputTokens = Some (maxOutputTokens config)\<rparr>"
  obtain out w1 where x: "executeTrigger e ?opts w = (out, w1)"
    by (cases "executeTrigger e ?opts w")
  obtain evs1 hf1 where w1: "w1 = w\<lparr>trace := trace w @ evs1, historyFile := hf1\<rparr>"
      "set (requestedModels evs1) \<subseteq> set ms"
    using executeTrigger_world [of e ?opts w] x by auto
  obtain n1 where step: "triggerAccounts e config ms (email # rest) n w =
                          triggerAccounts e config ms rest n1 w1"
    using x by (cases out) (simp_all add: Let_def)
  obtain evs2 hf2 where w2: "snd (triggerAccounts e config ms rest n1 w1) =
        w1\<lparr>trace := trace w1 @ evs2, historyFile := hf2\<rparr>"
      "set (requestedModels evs2) \<subseteq> set ms"
    using Cons.IH [of n1 w1] by blast
  have "snd (triggerAccounts e config ms (email # rest) n w) =
          w\<lparr>trace := trace w @ (evs1 @ evs2), historyFile := hf2\<rparr>"
    using step w1(1) w2(1) by simp
  then show ?case using w1(2) w2(2)
    by (intro exI [of _ "evs1 @ evs2"] exI [of _ hf2]) simp
qed

lemma resetAt_world:
  "\<exists>evs. snd (case resetTime model of
                 None \<Rightarrow> Date_nowISO e w
               | Some s \<Rightarrow> if s = [] then Date_nowISO e w else (s, w)) =
            w\<lparr>trace := trace w @ evs\<rparr> \<and> requestedModels evs = []"
proof (cases "resetTime model = None \<or> resetTime model = Some []")
  case True
  then show ?thesis
    by (intro exI [of _ "[ClockRead]"]) (auto simp: Date_nowISO_eq)
next
  case False
  then show ?thesis
    by (intro exI [of _ "[]"]) (auto split: option.splits)
qed

lemma updateResetState_world:
  "\<exists>evs rf. snd (updateResetState e k resetAt w) =
              w\<lparr>trace := trace w @ evs, resetStateFile := rf\<rparr> \<and>
            requestedModels evs = [] \<and>
            (writable w RESET_STATE_FILE_NAME \<longrightarrow> fst (updateResetState e k resetAt w) = Inr ()) \<and>
            (\<forall>k'. k' \<noteq> k \<longrightarrow>
               getModelResetState (w\<lparr>trace := trace w @ evs, resetStateFile := rf\<rparr>) k' =
               getModelResetState w k')"
proof -
  obtain st where st: "loadResetState w = Inr st"
    using loadResetState_total by blast
  show ?thesis
  proof (cases "writable w RESET_STATE_FILE_NAME")
    case True
    then show ?thesis
      using st
      by (intro exI [of _ "[ClockRead]"]
            exI [of _ "Doc (setProperty st k \<lparr>lastResetAt = resetAt,
                         lastTriggeredTime = toISOString e (clock e (trace w))\<rparr>)"])
         (simp add: updateResetState_eq [OF st] getModelResetState_def
            getProperty_setProperty_other)
  next
    case False
    then show ?thesis
      using st
      by (intro exI [of _ "[ClockRead]"] exI [of _ "resetStateFile w"])
         (simp add: updateResetState_eq [OF st] getModelResetState_def loadResetState_def)
  qed
qed

lemma scanModels_world:
  "\<exists>evs rf. snd (scanModels e resetState now ms acc w) =
              w\<lparr>trace := trace w @ evs, resetStateFile := rf\<rparr> \<and>
            requestedModels evs = [] \<and>
            (writable w RESET_STATE_FILE_NAME \<longrightarrow>
               fst (scanModels e resetState now ms acc w) =
                 Inr (acc @ map modelId (dueModels e resetState now ms))) \<and>
            (\<forall>k. k \<notin> set (map modelId (dueModels e resetState now ms)) \<longrightarrow>
               getModelResetState (w\<lparr>trace := trace w @ evs, resetStateFile := rf\<rparr>) k =
               getModelResetState w k)"
proof (induction ms arbitrary: acc w)
  case Nil
  show ?case
    by (intro exI [of _ "[]"] exI [of _ "resetStateFile w"]) (simp add: dueModels_def)
next
  case (Cons model rest)
  show ?case
  proof (cases "\<not> isModelUnused model \<or> inCooldown e now (getProperty resetState (modelId model))")
    case True
    then have "scanModels e resetState now (model # rest) acc w =
               scanModels e resetState now rest acc w"
      and "dueModels e resetState now (model # rest) = dueModels e resetState now rest"
      by (auto simp: dueModels_def)
    then show ?thesis using Cons.IH [of acc w] by simp
  next
    case False
    then have due: "dueModels e resetState now (model # rest) =
                      model # dueModels e resetState now rest"
      by (simp add: dueModels_def)
    let ?ra = "case resetTime model of
                 None \<Rightarrow> Date_nowISO e w
               | Some s \<Rightarrow> if s = [] then Date_nowISO e w else (s, w)"
    obtain resetAt w1 where ra: "?ra = (resetAt, w1)"
      by (cases ?ra)
    obtain evs1 where w1: "w1 = w\<lparr>trace := trace w @ evs1\<rparr>" "requestedModels evs1 = []"
      using resetAt_world [where model = model and e = e and w = w] ra by auto
    obtain out w2 where u: "updateResetState e (modelId model) resetAt w1 = (out, w2)"
      by (cases "updateResetState e (modelId model) resetAt w1")
    obtain evs2 rf2 where w2: "w2 = w1\<lparr>trace := trace w1 @ evs2, resetStateFile := rf2\<rparr>"
        "requestedModels evs2 = []"
        "writable w1 RESET_STATE_FILE_NAME \<longrightarrow> out = Inr ()"
        "\<forall>k'. k' \<noteq> modelId model \<longrightarrow> getModelResetState w2 k' = getModelResetState w1 k'"
      using updateResetState_world [of e "modelId model" resetAt w1] u by auto
    have w2k: "k' \<noteq> modelId model \<Longrightarrow> getModelResetState w2 k' = getModelResetState w k'" for k'
      using w2(4) w1(1) by simp
    show ?thesis
    proof (cases out)
      case (Inl err)
      then have nw: "\<not> writable w RESET_STATE_FILE_NAME"
        using w2(3) w1(1) by auto
      have "snd (scanModels e resetState now (model # rest) acc w) = w2"
        using Inl False ra u by simp
      then show ?thesis
        using w1 w2(1,2) w2k nw due
        by (intro exI [of _ "evs1 @ evs2"] exI [of _ rf2]) simp
    next
      case (Inr uu)
      then have s: "scanModels e resetState now (model # rest) acc w =
                 scanModels e resetState now rest (acc @ [modelId model]) w2"
        using False ra u by simp
      obtain evs3 rf3 where w3:
        "snd (scanModels e resetState now rest (acc @ [modelId model]) w2) =
              w2\<lparr>trace := trace w2 @ evs3, resetStateFile := rf3\<rparr>"
        "requestedModels evs3 = []"
        "writable w2 RESET_STATE_FILE_NAME \<longrightarrow>
               fst (scanModels e resetState now rest (acc @ [modelId model]) w2) =
                 Inr ((acc @ [modelId model]) @ map modelId (dueModels e resetState now rest))"
        "\<forall>k. k \<notin> set (map modelId (dueModels e resetState now rest)) \<longrightarrow>
            getModelResetState (w2\<lparr>trace := trace w2 @ evs3, resetStateFile := rf3\<rparr>) k =
              getModelResetState w2 k"
        using Cons.IH [of "acc @ [modelId model]" w2] by blast
      have a: "snd (scanModels e resetState now (model # rest) acc w) =
              w\<lparr>trace := trace w @ (evs1 @ evs2 @ evs3), resetStateFile := rf3\<rparr>"
        using s w3(1) w2(1) w1(1) by simp
      have b: "requestedModels (evs1 @ evs2 @ evs3) = []"
        using w1(2) w2(2) w3(2) by simp
      have c: "writable w RESET_STATE_FILE_NAME \<longrightarrow>
               fst (scanModels e resetState now (model # rest) acc w) =
                 Inr (acc @ map modelId (dueModels e resetState now (model # rest)))"
        using s w3(3) w2(1) w1(1) due by simp
      have d: "\<forall>k. k \<notin> set (map modelId (dueModels e resetState now (model # rest))) \<longrightarrow>
               getModelResetState (w\<lparr>trace := trace w @ (evs1 @ evs2 @ evs3), resetStateFile := rf3\<rparr>) k =
               getModelResetState w k"
      proof (intro allI impI)
        fix k assume k: "k \<notin> set (map modelId (dueModels e resetState now (model # rest)))"
        then have k1: "k \<noteq> modelId model"
          and k2: "k \<notin> set (map modelId (dueModels e resetState now rest))"
          using due by auto
        have "getModelResetState (w2\<lparr>trace := trace w2 @ evs3, resetStateFile := rf3\<rparr>) k =
                getModelResetState w2 k"
          using w3(4) k2 by blast
        moreover have "w2\<lparr>trace := trace w2 @ evs3, resetStateFile := rf3\<rparr> =
                w\<lparr>trace := trace w @ (evs1 @ evs2 @ evs3), resetStateFile := rf3\<rparr>"
          using w2(1) w1(1) by simp
        ultimately show "getModelResetState (w\<lparr>trace := trace w @ (evs1 @ evs2 @ evs3), resetStateFile := rf3\<rparr>) k =
               getModelResetState w k"
          using w2k [OF k1] by simp
      qed
      show ?thesis
        using a b c d by (intro exI [of _ "evs1 @ evs2 @ evs3"] exI [of _ rf3]) blast
    qed
  qed
qed

lemma scanModels_batch:
  "fst (scanModels e resetState now ms acc w) = Inr batch \<Longrightarrow>
   batch = acc @ map modelId (dueModels e resetState now ms)"
proof (induction ms arbitrary: acc w)
  case Nil
  then show ?case by (simp add: dueModels_def)
next
  case (Cons model rest)
  show ?case
  proof (cases "\<not> isModelUnused model \<or> inCooldown e now (getProperty resetState (modelId model))")
    case True
    then have "scanModels e resetState now (model # rest) acc w =
               scanModels e resetState now rest acc w"
      by auto
    then show ?thesis using Cons.IH [of acc w] Cons.prems True by (auto simp: dueModels_def)
  next
    case False
    let ?ra = "case resetTime model of
                 None \<Rightarrow> Date_nowISO e w
               | Some s \<Rightarrow> if s = [] then Date_nowISO e w else (s, w)"
    obtain resetAt w1 where ra: "?ra = (resetAt, w1)"
      by (cases ?ra)
    obtain out w2 where u: "updateResetState e (modelId model) resetAt w1 = (out, w2)"
      by (cases "updateResetState e (modelId model) resetAt w1")
    show ?thesis
    proof (cases out)
      case (Inl err)
      then have "fst (scanModels e resetState now (model # rest) acc w) = Inl err"
        using False ra u by simp
      then show ?thesis using Cons.prems by simp
    next
      case (Inr uu)
      then have "scanModels e resetState now (model # rest) acc w =
                 scanModels e resetState now rest (acc @ [modelId model]) w2"
        using False ra u by simp
      then show ?thesis
        using Cons.IH [of "acc @ [modelId model]" w2] Cons.prems False
        by (simp add: dueModels_def)
    qed
  qed
qed

lemma detect_summary:
  assumes st: "loadResetState w = Inr st"
  shows "\<exists>evs hf rf.
           snd (detectResetAndTrigger e snapshot w) =
             w\<lparr>trace := trace w @ evs, historyFile := hf, resetStateFile := rf\<rparr> \<and>
           set (requestedModels evs) \<subseteq>
             set (map modelId (dueModels e st (clock e (trace w)) (models snapshot))) \<and>
           (\<forall>r. fst (detectResetAndTrigger e snapshot w) = Inr r \<longrightarrow>
              set (triggeredModels r) \<subseteq>
                set (map modelId (dueModels e st (clock e (trace w)) (models snapshot)))) \<and>
           (\<forall>k. k \<notin> set (map modelId (dueModels e st (clock e (trace w)) (models snapshot))) \<longrightarrow>
              getModelResetState
                (w\<lparr>trace := trace w @ evs, historyFile := hf, resetStateFile := rf\<rparr>) k =
              getModelResetState w k)"
proof -
  let ?due = "map modelId (dueModels e st (clock e (trace w)) (models snapshot))"
  let ?nothing = "\<lparr>triggered = False, triggeredModels = []\<rparr>"
  have idle: ?thesis if "detectResetAndTrigger e snapshot w = (Inr ?nothing, w)"
    using that
    by (intro exI [of _ "[]"] exI [of _ "historyFile w"] exI [of _ "resetStateFile w"]) simp
  obtain c where c: "loadWakeupConfig w = Inr c"
    using readJsonFile_total [of "configFile w" None] by (auto simp: loadWakeupConfig_def)
  show ?thesis
  proof (cases "c = None \<or> \<not> enabled (the c) \<or> getAllValidAccounts (accountManager e) = []")
    case True
    then have "detectResetAndTrigger e snapshot w = (Inr ?nothing, w)"
      using c by (cases c) (auto simp: detectResetAndTrigger_def)
    then show ?thesis by (rule idle)
  next
    case False
    then obtain config where config: "c = Some config" "enabled config"
        "getAllValidAccounts (accountManager e) \<noteq> []"
      by (cases c) auto
    let ?w1 = "w\<lparr>trace := trace w @ [ClockRead]\<rparr>"
    let ?now = "clock e (trace w)"
    obtain out w2 where sc: "scanModels e st ?now (models snapshot) [] ?w1 = (out, w2)"
      by (cases "scanModels e st ?now (models snapshot) [] ?w1")
    obtain evs2 rf2 where w2: "w2 = ?w1\<lparr>trace := trace ?w1 @ evs2, resetStateFile := rf2\<rparr>"
        "requestedModels evs2 = []"
        "\<forall>k. k \<notin> set ?due \<longrightarrow> getModelResetState w2 k = getModelResetState ?w1 k"
      using scanModels_world [of e st ?now "models snapshot" "[]" ?w1] sc by auto
    have batch: "out = Inr b \<Longrightarrow> b = ?due" for b
      using scanModels_batch [of e st ?now "models snapshot" "[]" ?w1 b] sc
      by simp
    have unfold: "detectResetAndTrigger e snapshot w =
          (case out of
             Inl err \<Rightarrow> (Inl err, w2)
           | Inr b \<Rightarrow>
               if length b = 0 then (Inr ?nothing, w2)
               else (Inr \<lparr>triggered = True, triggeredModels = b\<rparr>,
                     snd (triggerAccounts e config b (getAllValidAccounts (accountManager e)) 0 w2)))"
      using c config st sc
      by (simp add: detectResetAndTrigger_def Date_now_def Let_def split: sum.splits prod.splits)
    have quiet: ?thesis
      if "snd (detectResetAndTrigger e snapshot w) = w2"
        and "\<forall>r. fst (detectResetAndTrigger e snapshot w) = Inr r \<longrightarrow> triggeredModels r = []"
    proof -
      have "snd (detectResetAndTrigger e snapshot w) =
              w\<lparr>trace := trace w @ (ClockRead # evs2), historyFile := historyFile w,
                resetStateFile := rf2\<rparr>"
        using that(1) w2(1) by simp
      moreover have "\<forall>k. k \<notin> set ?due \<longrightarrow>
              getModelResetState (w\<lparr>trace := trace w @ (ClockRead # evs2),
                historyFile := historyFile w, resetStateFile := rf2\<rparr>) k = getModelResetState w k"
        using w2(3) w2(1) by simp
      ultimately show ?thesis
        using that(2) w2(2)
        by (intro exI [of _ "ClockRead # evs2"] exI [of _ "historyFile w"] exI [of _ rf2]) simp
    qed
    show ?thesis
    proof (cases out)
      case (Inl err)
      then show ?thesis using unfold by (intro quiet) simp_all
    next
      case (Inr b)
      show ?thesis
      proof (cases "b = []")
        case True
        then show ?thesis using unfold Inr by (intro quiet) simp_all
      next
        case False
        let ?accounts = "getAllValidAccounts (accountManager e)"
        obtain evs3 hf3 where w3: "snd (triggerAccounts e config b ?accounts 0 w2) =
              w2\<lparr>trace := trace w2 @ evs3, historyFile := hf3\<rparr>"
            "set (requestedModels evs3) \<subseteq> set b"
          using triggerAccounts_world [of e config b ?accounts 0 w2] by blast
        have b: "b = ?due" using batch Inr by simp
        have a1: "snd (detectResetAndTrigger e snapshot w) =
              w\<lparr>trace := trace w @ (ClockRead # evs2 @ evs3), historyFile := hf3,
                resetStateFile := rf2\<rparr>"
          using unfold Inr False w3(1) w2(1) by simp
        have a2: "set (requestedModels (ClockRead # evs2 @ evs3)) \<subseteq> set ?due"
          using w2(2) w3(2) b by simp
        have a3: "\<forall>r. fst (detectResetAndTrigger e snapshot w) = Inr r \<longrightarrow>
              set (triggeredModels r) \<subseteq> set ?due"
          using unfold Inr False b by auto
        have a4: "\<forall>k. k \<notin> set ?due \<longrightarrow>
              getModelResetState (w\<lparr>trace := trace w @ (ClockRead # evs2 @ evs3),
                historyFile := hf3, resetStateFile := rf2\<rparr>) k = getModelResetState w k"
          using w2(3) w2(1) by (simp add: getModelResetState_def loadResetState_def)
        show ?thesis
          using a1 a2 a3 a4
          by (intro exI [of _ "ClockRead # evs2 @ evs3"] exI [of _ hf3] exI [of _ rf2]) blast
      qed
    qed
  qed
qed

text \<open>
  The cooldown under the key that the detector looks up, the model ID: a snapshot model
  that is unused, and under whose model ID the reset state read at the start of the run
  has an entry triggered less than one hour (the default cooldown) before the time of
  the run, is not in the trigger batch that \<open>detectResetAndTrigger\<close> returns, no
  generation request is issued for it, and its entry in the reset state stays as it was.
\<close>

lemma cooldown_skips_model_id:
  assumes "m \<in> set (models snapshot)"
    and "isModelUnused m"
    and "loadResetState w = Inr st"
    and "st (modelId m) = Some prev"
    and "dateGetTime e (lastTriggeredTime prev) = Some lastTriggered"
    and "clock e (trace w) - lastTriggered < 60 * 60 * 1000"
  shows "(\<forall>r. fst (detectResetAndTrigger e snapshot w) = Inr r \<longrightarrow>
            modelId m \<notin> set (triggeredModels r)) \<and>
         modelId m \<notin> set (requestedModels
                            (newEvents w (snd (detectResetAndTrigger e snapshot w)))) \<and>
         getModelResetState (snd (detectResetAndTrigger e snapshot w)) (modelId m) =
           Inr (Own prev)"
proof -
  let ?now = "clock e (trace w)"
  let ?due = "map modelId (dueModels e st ?now (models snapshot))"
  have cool: "inCooldown e ?now (getProperty st (modelId m))"
    using assms(4,5,6) by (simp add: inCooldown_def DEFAULT_COOLDOWN_MS_def getProperty_def)
  have notdue: "modelId m \<notin> set ?due"
    using cool by (auto simp: dueModels_def)
  obtain evs hf rf where
    w': "snd (detectResetAndTrigger e snapshot w) =
           w\<lparr>trace := trace w @ evs, historyFile := hf, resetStateFile := rf\<rparr>"
    and req: "set (requestedModels evs) \<subseteq> set ?due"
    and res: "\<forall>r. fst (detectResetAndTrigger e snapshot w) = Inr r \<longrightarrow>
                set (triggeredModels r) \<subseteq> set ?due"
    and keep: "\<forall>k. k \<notin> set ?due \<longrightarrow>
                getModelResetState
                  (w\<lparr>trace := trace w @ evs, historyFile := hf, resetStateFile := rf\<rparr>) k =
                getModelResetState w k"
    using detect_summary [OF assms(3), of e snapshot] by blast
  have "newEvents w (snd (detectResetAndTrigger e snapshot w)) = evs"
    using w' by (simp add: newEvents_def)
  moreover have "getModelResetState w (modelId m) = Inr (Own prev)"
    using assms(3,4) by (simp add: getModelResetState_def getProperty_def)
  ultimately show ?thesis
    using notdue req res keep w' by auto
qed

lemma detect_enabled:
  assumes "loadWakeupConfig w = Inr (Some config)" and "enabled config"
    and "getAllValidAccounts (accountManager e) \<noteq> []"
    and "loadResetState w = Inr st"
  shows "detectResetAndTrigger e snapshot w =
     (case scanModels e st (clock e (trace w)) (models snapshot) []
             (w\<lparr>trace := trace w @ [ClockRead]\<rparr>) of
        (Inl err, w2) \<Rightarrow> (Inl err, w2)
      | (Inr b, w2) \<Rightarrow>
          if length b = 0 then (Inr \<lparr>triggered = False, triggeredModels = []\<rparr>, w2)
          else (Inr \<lparr>triggered = True, triggeredModels = b\<rparr>,
                snd (triggerAccounts e config b (getAllValidAccounts (accountManager e)) 0 w2)))"
  using assms
  by (simp add: detectResetAndTrigger_def Date_now_def Let_def split: sum.splits prod.splits)

text \<open>
  C5. One unused model \<open>m\<close> that is not in cooldown, one usable account, and a
  credential refresh that is rejected every time with a detailed error: the run returns
  \<open>triggered = true\<close> with the model in \<open>triggeredModels\<close>; the history gains
  one failed record for the model, carrying the detailed message; no generation request
  is issued; and \<open>executeTrigger\<close> for that model and account returns
  \<open>success = false\<close> with the one failed result.
\<close>

theorem refresh_failure_scenario:
  assumes cfg: "loadWakeupConfig w = Inr (Some config)" and en: "enabled config"
    and acc: "getAllValidAccounts (accountManager e) = [email]"
    and snap: "models snapshot = [m]" and unused: "isModelUnused m"
    and st: "loadResetState w = Inr st" and fresh: "st (modelId m) = None"
    and wr: "writable w RESET_STATE_FILE_NAME" and wh: "writable w HISTORY_FILE_NAME"
    and hist: "loadTriggerHistory w = Inr h"
    and tm: "\<forall>tr. getTokenManagerForAccount e tr email = None"
    and refresh: "\<forall>tr. getValidAccessToken e tr email = Some (DetailedError msg detail)"
  shows "fst (detectResetAndTrigger e snapshot w) =
           Inr \<lparr>triggered = True, triggeredModels = [modelId m]\<rparr> \<and>
         (\<exists>stamp. loadTriggerHistory (snd (detectResetAndTrigger e snapshot w)) =
            Inr (take 100
              (\<lparr>timestamp = stamp, success = False, triggerType = TypeAuto,
                triggerSource = SourceQuotaReset, record_models = [modelId m],
                accountEmail = email, durationMs = 0,
                prompt = promptOf (customPrompt config), response = None,
                error = Some detail, tokensUsed = None\<rparr> # h))) \<and>
         requestedModels (newEvents w (snd (detectResetAndTrigger e snapshot w))) = [] \<and>
         (\<forall>w0 options. opt_models options = [modelId m] \<and> opt_accountEmail options = email \<and>
              writable w0 HISTORY_FILE_NAME \<longrightarrow>
            fst (executeTrigger e options w0) =
              Inr \<lparr>all_success = False,
                    results = [\<lparr>res_modelId = modelId m, res_success = False,
                                res_durationMs = 0, res_response = None,
                                res_error = Some detail, res_tokensUsed = None\<rparr>]\<rparr>)"
proof -
  let ?now = "clock e (trace w)"
  let ?w1 = "w\<lparr>trace := trace w @ [ClockRead]\<rparr>"
  let ?opts = "\<lparr>opt_models = [modelId m], opt_accountEmail = email,
              opt_triggerType = TypeAuto, opt_triggerSource = SourceQuotaReset,
              opt_customPrompt = customPrompt config,
              opt_maxOutputTokens = Some (maxOutputTokens config)\<rparr>"
  have due: "dueModels e st ?now [m] = [m]"
    using unused fresh by (simp add: dueModels_def inCooldown_def getProperty_def)
  obtain out w2 where sc: "scanModels e st ?now [m] [] ?w1 = (out, w2)"
    by (cases "scanModels e st ?now [m] [] ?w1")
  obtain evs2 rf2 where w2: "w2 = ?w1\<lparr>trace := trace ?w1 @ evs2, resetStateFile := rf2\<rparr>"
      and q2: "requestedModels evs2 = []"
      and out: "out = Inr [modelId m]"
    using scanModels_world [of e st ?now "[m]" "[]" ?w1] sc wr due by auto
  have w2h: "writable w2 HISTORY_FILE_NAME" "loadTriggerHistory w2 = Inr h"
    using w2 wh hist by (simp_all add: loadTriggerHistory_def)
  have x: "executeTrigger e ?opts w2 =
     (Inr \<lparr>all_success = False,
           results = [\<lparr>res_modelId = modelId m, res_success = False, res_durationMs = 0,
                       res_response = None, res_error = Some detail,
                       res_tokensUsed = None\<rparr>]\<rparr>,
      w2\<lparr>trace := trace w2 @ [TokenManagerRequested email, AccessTokenRequested email, ClockRead],
        historyFile := Doc (take MAX_HISTORY_ENTRIES
          (\<lparr>timestamp = toISOString e (clock e (trace w2 @
                 [TokenManagerRequested email, AccessTokenRequested email])),
            success = False, triggerType = TypeAuto,
            triggerSource = SourceQuotaReset, record_models = [modelId m],
            accountEmail = email, durationMs = 0,
            prompt = promptOf (customPrompt config), response = None,
            error = Some detail, tokensUsed = None\<rparr> # h))\<rparr>)"
    using executeTrigger_single_rejected [of ?opts "modelId m" e w2 msg detail h] tm refresh w2h
    by simp
  have d: "detectResetAndTrigger e snapshot w =
             (Inr \<lparr>triggered = True, triggeredModels = [modelId m]\<rparr>,
              snd (triggerAccounts e config [modelId m] [email] 0 w2))"
    using detect_enabled [OF cfg en _ st, of e snapshot] acc snap sc out by simp
  have t: "snd (triggerAccounts e config [modelId m] [email] 0 w2) = snd (executeTrigger e ?opts w2)"
    by (simp add: x Let_def)
  have part1: "fst (detectResetAndTrigger e snapshot w) =
           Inr \<lparr>triggered = True, triggeredModels = [modelId m]\<rparr>"
    using d by simp
  have part2: "\<exists>stamp. loadTriggerHistory (snd (detectResetAndTrigger e snapshot w)) =
            Inr (take 100
              (\<lparr>timestamp = stamp, success = False, triggerType = TypeAuto,
                triggerSource = SourceQuotaReset, record_models = [modelId m],
                accountEmail = email, durationMs = 0,
                prompt = promptOf (customPrompt config), response = None,
                error = Some detail, tokensUsed = None\<rparr> # h))"
    using d t x by (auto simp: MAX_HISTORY_ENTRIES_def)
  have part3: "requestedModels (newEvents w (snd (detectResetAndTrigger e snapshot w))) = []"
    using d t x w2 q2 by (simp add: newEvents_def)
  have part4: "fst (executeTrigger e options w0) =
              Inr \<lparr>all_success = False,
                    results = [\<lparr>res_modelId = modelId m, res_success = False,
                                res_durationMs = 0, res_response = None,
                                res_error = Some detail, res_tokensUsed = None\<rparr>]\<rparr>"
    if "opt_models options = [modelId m]" "opt_accountEmail options = email"
       "writable w0 HISTORY_FILE_NAME" for w0 options
  proof -
    obtain h0 where "loadTriggerHistory w0 = Inr h0"
      using readJsonFile_total [of "historyFile w0" "[]"] by (auto simp: loadTriggerHistory_def)
    then show ?thesis
      using executeTrigger_single_rejected [of options "modelId m" e w0 msg detail h0] tm refresh that
      by simp
  qed
  show ?thesis
    using part1 part2 part3 part4 by blast
qed

theorem refresh_failure_scenario_witness:
  "loadWakeupConfig enabled_world = Inr (Some enabled_config) \<and> enabled enabled_config \<and>
   getAllValidAccounts (accountManager example_env) = [''a@x.com''] \<and>
   models M1_snapshot = [M1] \<and> isModelUnused M1 \<and>
   loadResetState enabled_world = Inr Map.empty \<and>
   (Map.empty :: ResetState) (modelId M1) = None \<and>
   writable enabled_world RESET_STATE_FILE_NAME \<and> writable enabled_world HISTORY_FILE_NAME \<and>
   loadTriggerHistory enabled_world = Inr [] \<and>
   (\<forall>tr. getTokenManagerForAccount example_env tr ''a@x.com'' = None) \<and>
   (\<forall>tr. getValidAccessToken example_env tr ''a@x.com'' =
      Some (DetailedError ''Refresh token invalid or expired. Please login again.''
              ''Refresh token invalid or expired. Please login again.: invalid_grant'')) \<and>
   fst (detectResetAndTrigger example_env M1_snapshot enabled_world) =
     Inr \<lparr>triggered = True, triggeredModels = [modelId M1]\<rparr> \<and>
   (\<exists>stamp. loadTriggerHistory (snd (detectResetAndTrigger example_env M1_snapshot enabled_world)) =
      Inr (take 100
        (\<lparr>timestamp = stamp, success = False, triggerType = TypeAuto,
          triggerSource = SourceQuotaReset, record_models = [modelId M1],
          accountEmail = ''a@x.com'', durationMs = 0,
          prompt = promptOf (customPrompt enabled_config), response = None,
          error = Some ''Refresh token invalid or expired. Please login again.: invalid_grant'',
          tokensUsed = None\<rparr> # []))) \<and>
   requestedModels
     (newEvents enabled_world (snd (detectResetAndTrigger example_env M1_snapshot enabled_world))) = []"
proof -
  have cfg: "loadWakeupConfig enabled_world = Inr (Some enabled_config)"
    by (simp add: enabled_world_def loadWakeupConfig_def readJsonFile_cases)
  have en: "enabled enabled_config"
    by (simp add: enabled_config_def)
  have acc: "getAllValidAccounts (accountManager example_env) = [''a@x.com'']"
    by (simp add: getAllValidAccounts_def example_env_def example_manager_def)
  have snap: "models M1_snapshot = [M1]"
    by (simp add: M1_snapshot_def)
  have unused: "isModelUnused M1"
    by (simp add: isModelUnused_def M1_def FULL_QUOTA_THRESHOLD_def reset_window_ms js_gt_def)
  have st: "loadResetState enabled_world = Inr Map.empty"
    by (simp add: enabled_world_def empty_world_def loadResetState_def readJsonFile_cases)
  have fresh: "(Map.empty :: ResetState) (modelId M1) = None"
    by simp
  have wr: "writable enabled_world RESET_STATE_FILE_NAME"
    and wh: "writable enabled_world HISTORY_FILE_NAME"
    by (simp_all add: enabled_world_def empty_world_def)
  have hist: "loadTriggerHistory enabled_world = Inr []"
    by (simp add: enabled_world_def empty_world_def loadTriggerHistory_def readJsonFile_cases)
  have tm: "\<forall>tr. getTokenManagerForAccount example_env tr ''a@x.com'' = None"
    by (simp add: example_env_def)
  have refresh: "\<forall>tr. getValidAccessToken example_env tr ''a@x.com'' =
      Some (DetailedError ''Refresh token invalid or expired. Please login again.''
              ''Refresh token invalid or expired. Please login again.: invalid_grant'')"
    by (simp add: example_env_def refresh_rejected_def)
  from refresh_failure_scenario [OF cfg en acc snap unused st fresh wr wh hist tm refresh]
  show ?thesis
    using cfg en acc snap unused st fresh wr wh hist tm refresh by blast
qed

lemmas world_defs = pool_world_def enabled_world_def empty_world_def enabled_config_def
lemmas env_defs = working_env_def example_env_def example_manager_def refresh_rejected_def
lemmas storage_defs = loadWakeupConfig_def loadResetState_def loadTriggerHistory_def
  loadModelMapping_def readJsonFile_cases getModelResetState_def getResetKey_def
  getModelConstant_def updateResetState_def saveResetState_def writeJsonFile_def
  addTriggerRecord_def saveTriggerHistory_def Date_nowISO_eq Date_now_def
  getProperty_def setProperty_def

lemma M1_unused: "isModelUnused M1"
  by (simp add: isModelUnused_def M1_def FULL_QUOTA_THRESHOLD_def reset_window_ms js_gt_def)

text \<open>
  The run of the detector on the snapshot of \<open>M1\<close>, when the model mapping gives
  \<open>M1\<close> the reset key \<open>POOL\<close> and \<open>POOL\<close> was triggered 10 minutes before.
\<close>

lemma pool_run:
  "detectResetAndTrigger working_env M1_snapshot pool_world =
      (Inr \<lparr>triggered = True, triggeredModels = [''M1'']\<rparr>,
       pool_world\<lparr>trace := [ClockRead, ClockRead, TokenManagerRequested ''a@x.com'',
            AccessTokenRequested ''a@x.com'', ProjectIdRequested ''a@x.com'', ClockRead,
            GenerationRequested ''a@x.com'' ''M1'' ''hi'' (Some 1), ClockRead, ClockRead],
          resetStateFile := Doc [''POOL'' \<mapsto> ten_minutes_ago,
            ''M1'' \<mapsto> \<lparr>lastResetAt = ''2023-11-15T03:13:20.000Z'',
                         lastTriggeredTime = ''2023-11-14T22:13:20.000Z''\<rparr>],
          historyFile := Doc [\<lparr>timestamp = ''2023-11-14T22:13:20.000Z'', success = True,
            triggerType = TypeAuto, triggerSource = SourceQuotaReset,
            record_models = [''M1''], accountEmail = ''a@x.com'', durationMs = 0,
            prompt = ''hi'', response = Some ''Hello'', error = None,
            tokensUsed = None\<rparr>]\<rparr>)"
  by (simp add: detectResetAndTrigger_def world_defs storage_defs env_defs
        getAllValidAccounts_def M1_snapshot_def M1_unused [unfolded M1_def] inCooldown_def
        M1_def objectPrototypeKeys_def
        executeTrigger_def triggerBatches.simps MAX_CONCURRENT_REQUESTS_def
        triggerSingleModel_def promptOf_def DEFAULT_PROMPT_def toTriggerRecord_def
        MAX_HISTORY_ENTRIES_def Let_def)

text \<open>
  C2 at a concrete input. The model mapping gives \<open>M1\<close> the reset key \<open>POOL\<close>, and
  \<open>POOL\<close> was triggered 10 minutes before the run, which is inside the cooldown. The
  detector looks up and writes the reset state under the model ID \<open>M1\<close>, not under
  \<open>getResetKey\<close> of it: it finds no entry, triggers \<open>M1\<close>, and writes the new
  entry under \<open>M1\<close>, leaving the entry of \<open>POOL\<close> as it was.
\<close>

theorem raw_key_evaluation:
  "getResetKey pool_world (modelId M1) = Inr (Own ''POOL'') \<and>
   getModelResetState pool_world ''POOL'' = Inr (Own ten_minutes_ago) \<and>
   getModelResetState pool_world (modelId M1) = Inr Undefined \<and>
   inCooldown working_env (clock working_env (trace pool_world)) (Own ten_minutes_ago) \<and>
   fst (detectResetAndTrigger working_env M1_snapshot pool_world) =
     Inr \<lparr>triggered = True, triggeredModels = [''M1'']\<rparr> \<and>
   requestedModels
     (newEvents pool_world (snd (detectResetAndTrigger working_env M1_snapshot pool_world))) =
     [''M1''] \<and>
   getModelResetState (snd (detectResetAndTrigger working_env M1_snapshot pool_world)) ''M1'' =
     Inr (Own \<lparr>lastResetAt = ''2023-11-15T03:13:20.000Z'',
               lastTriggeredTime = ''2023-11-14T22:13:20.000Z''\<rparr>) \<and>
   getModelResetState (snd (detectResetAndTrigger working_env M1_snapshot pool_world)) ''POOL'' =
     Inr (Own ten_minutes_ago)"
proof -
  have a: "getResetKey pool_world (modelId M1) = Inr (Own ''POOL'')"
    by (simp add: world_defs storage_defs M1_def)
  have b: "getModelResetState pool_world ''POOL'' = Inr (Own ten_minutes_ago)"
    by (simp add: world_defs storage_defs)
  have c: "getModelResetState pool_world (modelId M1) = Inr Undefined"
    by (simp add: world_defs storage_defs M1_def objectPrototypeKeys_def)
  have d: "inCooldown working_env (clock working_env (trace pool_world)) (Own ten_minutes_ago)"
    by (simp add: inCooldown_def env_defs ten_minutes_ago_def DEFAULT_COOLDOWN_MS_def)
  have f: "fst (detectResetAndTrigger working_env M1_snapshot pool_world) =
             Inr \<lparr>triggered = True, triggeredModels = [''M1'']\<rparr>"
    by (simp add: pool_run)
  have g: "requestedModels
     (newEvents pool_world (snd (detectResetAndTrigger working_env M1_snapshot pool_world))) =
     [''M1'']"
  proof -
    have "trace pool_world = []"
      by (simp add: world_defs)
    then show ?thesis
      by (simp add: pool_run newEvents_def)
  qed
  have h: "getModelResetState (snd (detectResetAndTrigger working_env M1_snapshot pool_world))
             ''M1'' =
     Inr (Own \<lparr>lastResetAt = ''2023-11-15T03:13:20.000Z'',
               lastTriggeredTime = ''2023-11-14T22:13:20.000Z''\<rparr>)"
    by (simp add: pool_run getModelResetState_def loadResetState_def readJsonFile_cases
          getProperty_def)
  have i: "getModelResetState (snd (detectResetAndTrigger working_env M1_snapshot pool_world))
             ''POOL'' = Inr (Own ten_minutes_ago)"
    by (simp add: pool_run getModelResetState_def loadResetState_def readJsonFile_cases
          getProperty_def)
  show ?thesis
    using a b c d f g h i by blast
qed

text \<open>
  C3 at the same input. \<open>M1\<close> is unused, and its dedup key \<open>POOL\<close> has an entry
  in the reset state that was triggered 10 minutes before the run, less than the
  cooldown of one hour. The detector tests the cooldown under the model ID, where there
  is no entry: \<open>M1\<close> is in the trigger batch, and a generation request is issued for
  it.
\<close>

theorem cooldown_dedup_key_evaluation:
  "M1 \<in> set (models M1_snapshot) \<and> isModelUnused M1 \<and>
   getResetKey pool_world (modelId M1) = Inr (Own ''POOL'') \<and>
   getModelResetState pool_world ''POOL'' = Inr (Own ten_minutes_ago) \<and>
   dateGetTime working_env (lastTriggeredTime ten_minutes_ago) = Some 1699999400000 \<and>
   clock working_env (trace pool_world) - 1699999400000 = 10 * 60 * 1000 \<and>
   clock working_env (trace pool_world) - 1699999400000 < DEFAULT_COOLDOWN_MS \<and>
   fst (detectResetAndTrigger working_env M1_snapshot pool_world) =
     Inr \<lparr>triggered = True, triggeredModels = [modelId M1]\<rparr> \<and>
   modelId M1 \<in> set (requestedModels
     (newEvents pool_world (snd (detectResetAndTrigger working_env M1_snapshot pool_world))))"
proof -
  have a: "M1 \<in> set (models M1_snapshot)"
    by (simp add: M1_snapshot_def)
  have b: "getResetKey pool_world (modelId M1) = Inr (Own ''POOL'')"
    by (simp add: world_defs storage_defs M1_def)
  have c: "getModelResetState pool_world ''POOL'' = Inr (Own ten_minutes_ago)"
    by (simp add: world_defs storage_defs)
  have d: "dateGetTime working_env (lastTriggeredTime ten_minutes_ago) = Some 1699999400000"
    by (simp add: env_defs ten_minutes_ago_def)
  have t: "clock working_env (trace pool_world) - 1699999400000 = 10 * 60 * 1000"
    "clock working_env (trace pool_world) - 1699999400000 < DEFAULT_COOLDOWN_MS"
    by (simp_all add: env_defs DEFAULT_COOLDOWN_MS_def)
  have tr: "trace pool_world = []"
    by (simp add: world_defs)
  have g: "modelId M1 \<in> set (requestedModels
     (newEvents pool_world (snd (detectResetAndTrigger working_env M1_snapshot pool_world))))"
    using tr by (simp add: pool_run newEvents_def M1_def)
  have f: "fst (detectResetAndTrigger working_env M1_snapshot pool_world) =
             Inr \<lparr>triggered = True, triggeredModels = [modelId M1]\<rparr>"
    by (simp add: pool_run M1_def)
  show ?thesis
    using a M1_unused b c d t f g by blast
qed

section \<open>Project resolution: the tier and the retries\<close>











end
